theory Spec2Isabelle
  imports Main "HOL-Library.Word"
begin

section \<open>JavaScript strings, values and errors\<close>

text \<open>
  A JavaScript string is a sequence of UTF-16 code units. Every string the program
  receives (commands, titles, notes, identifiers, the token) is a \<open>jsstring\<close>. Every string
  the program emits towards Things (an encoded component, a URL) is ASCII by construction
  and is a HOL \<open>string\<close>.
\<close>

type_synonym code_unit = "16 word"
type_synonym jsstring = "code_unit list"

definition unit_of_char :: "char \<Rightarrow> code_unit" where
  "unit_of_char c = of_nat (of_char c)"

definition js :: "string \<Rightarrow> jsstring" where
  "js s = map unit_of_char s"

text \<open>
  The values a parameter mapping holds in \<open>things-client.js\<close>: strings, the boolean
  of \<open>completeTodo\<close>, and the two absent values \<open>undefined\<close> and \<open>null\<close>.
\<close>

datatype jsval = JUndefined | JNull | JBool bool | JStr jsstring

text \<open>\<open>String(value)\<close>, applied by \<open>buildUrl\<close> to values that are neither undefined nor null.\<close>

fun String_of :: "jsval \<Rightarrow> jsstring" where
  "String_of (JStr s) = s"
| "String_of (JBool True) = js ''true''"
| "String_of (JBool False) = js ''false''"
| "String_of JUndefined = js ''undefined''"
| "String_of JNull = js ''null''"

text \<open>A thrown exception: its class and its message.\<close>

datatype js_error = Error string | URIError string | TypeError string

fun message :: "js_error \<Rightarrow> string" where
  "message (Error m) = m"
| "message (URIError m) = m"
| "message (TypeError m) = m"

section \<open>Percent-encoding\<close>

definition hex_digit :: "nat \<Rightarrow> char" where
  "hex_digit n = ''0123456789ABCDEF'' ! (n mod 16)"

text \<open>One byte as \<open>%XX\<close>, upper-case hexadecimal.\<close>

definition pct_byte :: "nat \<Rightarrow> string" where
  "pct_byte b = [CHR ''%'', hex_digit (b div 16), hex_digit (b mod 16)]"

text \<open>The UTF-8 bytes of a code point.\<close>

definition utf8 :: "nat \<Rightarrow> nat list" where
  "utf8 cp =
     (if cp < 0x80 then [cp]
      else if cp < 0x800 then [0xC0 + cp div 64, 0x80 + cp mod 64]
      else if cp < 0x10000 then [0xE0 + cp div 4096, 0x80 + (cp div 64) mod 64, 0x80 + cp mod 64]
      else [0xF0 + cp div 262144, 0x80 + (cp div 4096) mod 64,
            0x80 + (cp div 64) mod 64, 0x80 + cp mod 64])"

definition pct_utf8 :: "nat \<Rightarrow> string" where
  "pct_utf8 cp = concat (map pct_byte (utf8 cp))"

subsection \<open>\<open>encodeURIComponent\<close>\<close>

text \<open>
  The characters \<open>encodeURIComponent\<close> leaves alone: ASCII letters, digits and
  \<open>- _ . ! ~ * ' ( )\<close>.
\<close>

definition uri_unreserved :: "nat \<Rightarrow> bool" where
  "uri_unreserved n \<longleftrightarrow>
     (65 \<le> n \<and> n \<le> 90) \<or> (97 \<le> n \<and> n \<le> 122) \<or> (48 \<le> n \<and> n \<le> 57) \<or>
     n \<in> {45, 95, 46, 33, 126, 42, 39, 40, 41}"

definition high_surrogate :: "nat \<Rightarrow> bool" where
  "high_surrogate n \<longleftrightarrow> 0xD800 \<le> n \<and> n \<le> 0xDBFF"

definition low_surrogate :: "nat \<Rightarrow> bool" where
  "low_surrogate n \<longleftrightarrow> 0xDC00 \<le> n \<and> n \<le> 0xDFFF"

definition pair_code_point :: "nat \<Rightarrow> nat \<Rightarrow> nat" where
  "pair_code_point hi lo = (hi - 0xD800) * 0x400 + (lo - 0xDC00) + 0x10000"

text \<open>
  ECMAScript's \<open>Encode\<close> with the unreserved set above. It walks the code units, reads one
  code point at a time, and throws a \<open>URIError\<close> at an unpaired surrogate. \<open>enc_units\<close> works
  on the numeric values of the code units; \<open>None\<close> is the thrown \<open>URIError\<close>.
\<close>

fun enc_units :: "nat list \<Rightarrow> string option" where
  "enc_units [] = Some []"
| "enc_units (u # us) =
     (if uri_unreserved u then map_option ((#) (char_of u)) (enc_units us)
      else if low_surrogate u then None
      else if high_surrogate u then
        (case us of
           [] \<Rightarrow> None
         | l # rest \<Rightarrow>
             if low_surrogate l
             then map_option ((@) (pct_utf8 (pair_code_point u l))) (enc_units rest)
             else None)
      else map_option ((@) (pct_utf8 u)) (enc_units us))"

definition encodeURIComponent :: "jsstring \<Rightarrow> js_error + string" where
  "encodeURIComponent s =
     (case enc_units (map unat s) of
        None \<Rightarrow> Inl (URIError ''URI malformed'')
      | Some e \<Rightarrow> Inr e)"


section \<open>The platform's \<open>URL\<close> class\<close>

text \<open>
  \<open>buildUrl\<close> relies on three operations of the WHATWG \<open>URL\<close> class as Node.js
  provides it: the constructor \<open>new URL(command, 'things:///')\<close>, the \<open>search\<close> setter and
  \<open>toString\<close>. The record below is the URL record of the URL standard; the host is kept
  in its serialised form.
\<close>

datatype url_path = Opaque string | Segments "string list"

record url =
  url_scheme :: string
  url_username :: string
  url_password :: string
  url_host :: "string option"
  url_port :: "nat option"
  url_path :: url_path
  url_query :: "string option"
  url_fragment :: "string option"

text \<open>\<open>this.baseUrl\<close>, the string \<open>things:///\<close>, as a parsed URL record.\<close>

definition baseUrl :: url where
  "baseUrl = \<lparr>url_scheme = ''things'', url_username = [], url_password = [],
     url_host = Some [], url_port = None, url_path = Segments [[]],
     url_query = None, url_fragment = None\<rparr>"

definition is_special :: "url \<Rightarrow> bool" where
  "is_special u \<longleftrightarrow> url_scheme u \<in> set [''ftp'', ''file'', ''http'', ''https'', ''ws'', ''wss'']"

subsection \<open>Percent-encode sets of the URL standard\<close>

definition c0_control_set :: "nat \<Rightarrow> bool" where
  "c0_control_set c \<longleftrightarrow> c < 0x20 \<or> 0x7E < c"

definition fragment_set :: "nat \<Rightarrow> bool" where
  "fragment_set c \<longleftrightarrow> c0_control_set c \<or> c \<in> {0x20, 0x22, 0x3C, 0x3E, 0x60}"

definition query_set :: "nat \<Rightarrow> bool" where
  "query_set c \<longleftrightarrow> c0_control_set c \<or> c \<in> {0x20, 0x22, 0x23, 0x3C, 0x3E}"

definition special_query_set :: "nat \<Rightarrow> bool" where
  "special_query_set c \<longleftrightarrow> query_set c \<or> c = 0x27"

definition path_set :: "nat \<Rightarrow> bool" where
  "path_set c \<longleftrightarrow> query_set c \<or> c \<in> {0x3F, 0x5E, 0x60, 0x7B, 0x7D}"

definition utf8_percent_encode :: "(nat \<Rightarrow> bool) \<Rightarrow> nat \<Rightarrow> string" where
  "utf8_percent_encode in_set c = (if in_set c then pct_utf8 c else [char_of c])"

definition percent_encode_string :: "(nat \<Rightarrow> bool) \<Rightarrow> nat list \<Rightarrow> string" where
  "percent_encode_string in_set cs = concat (map (utf8_percent_encode in_set) cs)"

subsection \<open>Input preparation\<close>

text \<open>
  The constructor takes a USVString: an unpaired surrogate becomes U+FFFD, a surrogate
  pair becomes its code point.
\<close>

fun code_points :: "nat list \<Rightarrow> nat list" where
  "code_points [] = []"
| "code_points (u # us) =
     (if high_surrogate u then
        (case us of
           [] \<Rightarrow> [0xFFFD]
         | l # rest \<Rightarrow>
             if low_surrogate l then pair_code_point u l # code_points rest
             else 0xFFFD # code_points us)
      else if low_surrogate u then 0xFFFD # code_points us
      else u # code_points us)"

definition c0_or_space :: "nat \<Rightarrow> bool" where
  "c0_or_space c \<longleftrightarrow> c \<le> 0x20"

definition tab_or_newline :: "nat \<Rightarrow> bool" where
  "tab_or_newline c \<longleftrightarrow> c \<in> {0x09, 0x0A, 0x0D}"

text \<open>
  Leading and trailing C0 controls and spaces are dropped, then every tab and newline
  is removed.
\<close>

definition prepare_input :: "nat list \<Rightarrow> nat list" where
  "prepare_input cs =
     filter (\<lambda>c. \<not> tab_or_newline c)
       (rev (dropWhile c0_or_space (rev (dropWhile c0_or_space cs))))"

subsection \<open>The states of the basic URL parser reached from the base \<open>things:///\<close>\<close>

definition ascii_alpha :: "nat \<Rightarrow> bool" where
  "ascii_alpha c \<longleftrightarrow> (65 \<le> c \<and> c \<le> 90) \<or> (97 \<le> c \<and> c \<le> 122)"

definition ascii_alphanumeric :: "nat \<Rightarrow> bool" where
  "ascii_alphanumeric c \<longleftrightarrow> ascii_alpha c \<or> (48 \<le> c \<and> c \<le> 57)"

text \<open>
  Scheme start state and scheme state: the input carries its own scheme when it starts
  with an ASCII letter, continues with letters, digits, \<open>+\<close>, \<open>-\<close> or \<open>.\<close> and reaches a
  colon. Otherwise the parser starts over in the no scheme state.
\<close>

fun scheme_state :: "nat list \<Rightarrow> bool" where
  "scheme_state [] = False"
| "scheme_state (c # cs) =
     (if ascii_alphanumeric c \<or> c \<in> {0x2B, 0x2D, 0x2E} then scheme_state cs
      else c = 0x3A)"

definition has_scheme :: "nat list \<Rightarrow> bool" where
  "has_scheme cs = (case cs of [] \<Rightarrow> False | c # rest \<Rightarrow> ascii_alpha c \<and> scheme_state rest)"

definition single_dot :: "string \<Rightarrow> bool" where
  "single_dot b \<longleftrightarrow> b \<in> set [''.'', ''%2e'', ''%2E'']"

definition double_dot :: "string \<Rightarrow> bool" where
  "double_dot b \<longleftrightarrow> b \<in> set [''..'', ''.%2e'', ''.%2E'', ''%2e.'', ''%2E.'',
     ''%2e%2e'', ''%2e%2E'', ''%2E%2e'', ''%2E%2E'']"

text \<open>Shortening a path (the scheme is not \<open>file\<close>): the last segment, if any, is removed.\<close>

definition shorten :: "string list \<Rightarrow> string list" where
  "shorten segs = butlast segs"

text \<open>
  What the path state does with its buffer when a segment ends; \<open>slash\<close> tells whether
  the segment was ended by \<open>/\<close> (rather than by \<open>?\<close>, \<open>#\<close> or the end of the input).
\<close>

definition end_segment :: "bool \<Rightarrow> string list \<Rightarrow> string \<Rightarrow> string list" where
  "end_segment slash segs buf =
     (if double_dot buf then (if slash then shorten segs else shorten segs @ [[]])
      else if single_dot buf then (if slash then segs else segs @ [[]])
      else segs @ [buf])"

definition fragment_state :: "url \<Rightarrow> nat list \<Rightarrow> url" where
  "fragment_state u cs = u\<lparr>url_fragment := Some (percent_encode_string fragment_set cs)\<rparr>"

text \<open>Query state for a URL that is not special; a \<open>#\<close> ends the query.\<close>

definition query_state :: "url \<Rightarrow> nat list \<Rightarrow> url" where
  "query_state u cs =
     (let q = takeWhile (\<lambda>c. c \<noteq> 0x23) cs;
          u' = u\<lparr>url_query := Some (percent_encode_string query_set q)\<rparr>
      in case dropWhile (\<lambda>c. c \<noteq> 0x23) cs of
           [] \<Rightarrow> u'
         | _ # frag \<Rightarrow> fragment_state u' frag)"

text \<open>Path state for a URL that is not special: segments so far, buffer, remaining input.\<close>

fun path_state :: "url \<Rightarrow> string list \<Rightarrow> string \<Rightarrow> nat list \<Rightarrow> url" where
  "path_state u segs buf [] = u\<lparr>url_path := Segments (end_segment False segs buf)\<rparr>"
| "path_state u segs buf (c # cs) =
     (if c = 0x2F then path_state u (end_segment True segs buf) [] cs
      else if c = 0x3F then
        query_state (u\<lparr>url_path := Segments (end_segment False segs buf)\<rparr>) cs
      else if c = 0x23 then
        fragment_state (u\<lparr>url_path := Segments (end_segment False segs buf)\<rparr>) cs
      else path_state u segs (buf @ utf8_percent_encode path_set c) cs)"

text \<open>
  The constructor \<open>new URL(command, this.baseUrl)\<close>. An input with a scheme of its own, or
  one that starts with two slashes (an authority), leaves the base behind: host parsing,
  special schemes and opaque paths are then the platform's business, taken here as the
  parameter \<open>parse_absolute\<close>, which returns no URL where the platform throws a
  \<open>TypeError\<close>. Every other input is resolved against \<open>things:///\<close> by the no scheme,
  relative, relative slash, path, query and fragment states of the URL standard.
\<close>

definition leaves_base :: "nat list \<Rightarrow> bool" where
  "leaves_base input \<longleftrightarrow> has_scheme input \<or> take 2 input = [0x2F, 0x2F]"

definition resolve_relative :: "nat list \<Rightarrow> url" where
  "resolve_relative input =
     (case input of
        [] \<Rightarrow> baseUrl
      | c # cs \<Rightarrow>
          if c = 0x2F then path_state baseUrl [] [] cs
          else if c = 0x3F then query_state (baseUrl\<lparr>url_query := Some []\<rparr>) cs
          else if c = 0x23 then fragment_state baseUrl cs
          else path_state baseUrl (shorten [[]]) [] input)"

definition URL_new :: "(jsstring \<Rightarrow> url option) \<Rightarrow> jsstring \<Rightarrow> js_error + url" where
  "URL_new parse_absolute command =
     (let input = prepare_input (code_points (map unat command))
      in if leaves_base input then
           (case parse_absolute command of
              None \<Rightarrow> Inl (TypeError ''Invalid URL'')
            | Some u \<Rightarrow> Inr u)
         else Inr (resolve_relative input))"

subsection \<open>The \<open>search\<close> setter and the serialiser\<close>

text \<open>
  \<open>url.search = value\<close>: a leading \<open>?\<close> is dropped and the rest is parsed in the query
  state with a state override, so that \<open>#\<close> is an ordinary character: tabs and
  newlines are removed and the rest is percent-encoded with the query set (the special-query
  set for a special scheme), which is \<open>search_encode\<close>. The empty value removes the query
  (and, for an opaque path with no fragment, the trailing spaces of the path).
\<close>

definition search_encode :: "bool \<Rightarrow> string \<Rightarrow> string" where
  "search_encode special q =
     percent_encode_string (if special then special_query_set else query_set)
       (filter (\<lambda>c. \<not> tab_or_newline c) (map of_char q))"

definition set_search :: "url \<Rightarrow> string \<Rightarrow> url" where
  "set_search u v =
     (if v = [] then
        (case url_path u of
           Opaque p \<Rightarrow>
             if url_fragment u = None
             then u\<lparr>url_query := None,
                    url_path := Opaque (rev (dropWhile (\<lambda>c. c = CHR '' '') (rev p)))\<rparr>
             else u\<lparr>url_query := None\<rparr>
         | Segments _ \<Rightarrow> u\<lparr>url_query := None\<rparr>)
      else
        u\<lparr>url_query :=
            Some (search_encode (is_special u) (if hd v = CHR ''?'' then tl v else v))\<rparr>)"

function decimal :: "nat \<Rightarrow> string" where
  "decimal n = (if n < 10 then [hex_digit n] else decimal (n div 10) @ [hex_digit (n mod 10)])"
  by pat_completeness auto
termination
  by (relation "measure id") auto

definition serialize_path :: "url_path \<Rightarrow> string" where
  "serialize_path p =
     (case p of Opaque s \<Rightarrow> s | Segments segs \<Rightarrow> concat (map ((#) CHR ''/'') segs))"

text \<open>The part of the serialisation that precedes the query.\<close>

definition href_head :: "url \<Rightarrow> string" where
  "href_head u =
     url_scheme u @ '':'' @
     (case url_host u of
        Some h \<Rightarrow>
          ''//'' @
          (if url_username u \<noteq> [] \<or> url_password u \<noteq> []
           then url_username u @
                (if url_password u \<noteq> [] then '':'' @ url_password u else []) @ ''@''
           else []) @
          h @ (case url_port u of None \<Rightarrow> [] | Some p \<Rightarrow> '':'' @ decimal p)
      | None \<Rightarrow>
          (case url_path u of
             Segments (s # _ # _) \<Rightarrow> if s = [] then ''/.'' else []
           | _ \<Rightarrow> [])) @
     serialize_path (url_path u)"

text \<open>\<open>url.toString()\<close>.\<close>

definition href :: "url \<Rightarrow> string" where
  "href u =
     href_head u @
     (case url_query u of None \<Rightarrow> [] | Some q \<Rightarrow> ''?'' @ q) @
     (case url_fragment u of None \<Rightarrow> [] | Some f \<Rightarrow> ''#'' @ f)"


section \<open>The Things client (\<open>things-client.js\<close>)\<close>

text \<open>
  What the program takes from its host: \<open>os.platform()\<close>, the environment variable
  \<open>THINGS_AUTHENTICATION_TOKEN\<close>, the part of the \<open>URL\<close> constructor described above,
  and the \<open>open\<close> package. \<open>launch\<close> is given the URLs handed to \<open>open\<close> so far and the URL
  to open; it returns the message of the error \<open>open\<close> throws, or nothing when the operating
  system accepts the request.
\<close>

record runtime =
  os_platform :: string
  env_token :: "jsstring option"
  parse_absolute :: "jsstring \<Rightarrow> url option"
  launch :: "string list \<Rightarrow> string \<Rightarrow> string option"

record client =
  authToken :: "jsstring option"

text \<open>The world is the sequence of URLs handed to \<open>open\<close>, oldest first.\<close>

type_synonym world = "string list"

type_synonym params = "(jsstring \<times> jsval) list"

text \<open>Truthiness of a field that is a string or absent.\<close>

definition truthy :: "jsstring option \<Rightarrow> bool" where
  "truthy v = (case v of None \<Rightarrow> False | Some s \<Rightarrow> s \<noteq> [])"

text \<open>The constructor with \<open>validateEnvironment\<close>; the warning about a missing token is not modelled.\<close>

definition ThingsClient :: "runtime \<Rightarrow> js_error + client" where
  "ThingsClient rt =
     (if os_platform rt \<noteq> ''darwin'' then Inl (Error ''Things app is only available on macOS'')
      else Inr \<lparr>authToken = env_token rt\<rparr>)"

definition isThingsAvailable :: "runtime \<Rightarrow> bool" where
  "isThingsAvailable rt \<longleftrightarrow> os_platform rt = ''darwin''"

text \<open>\<open>Array.prototype.join\<close> on strings.\<close>

fun join :: "'a list \<Rightarrow> 'a list list \<Rightarrow> 'a list" where
  "join sep [] = []"
| "join sep [x] = x"
| "join sep (x # y # ys) = x @ sep @ join sep (y # ys)"

text \<open>
  The \<open>forEach\<close> over \<open>Object.entries(params)\<close>: the mapping is the list of its entries
  in iteration order. An entry whose value is undefined or null is skipped; a \<open>URIError\<close>
  of \<open>encodeURIComponent\<close> leaves the loop.
\<close>

fun param_parts :: "params \<Rightarrow> js_error + string list" where
  "param_parts [] = Inr []"
| "param_parts ((key, v) # ps) =
     (if v \<noteq> JUndefined \<and> v \<noteq> JNull then
        (case encodeURIComponent key of
           Inl e \<Rightarrow> Inl e
         | Inr ek \<Rightarrow>
             (case encodeURIComponent (String_of v) of
                Inl e \<Rightarrow> Inl e
              | Inr ev \<Rightarrow>
                  (case param_parts ps of
                     Inl e \<Rightarrow> Inl e
                   | Inr parts \<Rightarrow> Inr ((ek @ ''='' @ ev) # parts))))
      else param_parts ps)"

text \<open>The credential part, pushed first when a token is set and the command is not \<open>show\<close>.\<close>

definition auth_parts :: "client \<Rightarrow> jsstring \<Rightarrow> js_error + string list" where
  "auth_parts this command =
     (if truthy (authToken this) \<and> command \<noteq> js ''show'' then
        (case encodeURIComponent (the (authToken this)) of
           Inl e \<Rightarrow> Inl e
         | Inr et \<Rightarrow> Inr [''auth-token='' @ et])
      else Inr [])"

text \<open>The body of the \<open>try\<close> block of \<open>buildUrl\<close>, up to the final URL object.\<close>

definition build_url_object :: "runtime \<Rightarrow> client \<Rightarrow> jsstring \<Rightarrow> params \<Rightarrow> js_error + url" where
  "build_url_object rt this command ps =
     (case URL_new (parse_absolute rt) command of
        Inl e \<Rightarrow> Inl e
      | Inr u \<Rightarrow>
          (case auth_parts this command of
             Inl e \<Rightarrow> Inl e
           | Inr auth \<Rightarrow>
               (case param_parts ps of
                  Inl e \<Rightarrow> Inl e
                | Inr parts \<Rightarrow>
                    (let queryParts = auth @ parts
                     in if length queryParts > 0
                        then Inr (set_search u (''?'' @ join ''&'' queryParts))
                        else Inr u))))"

definition buildUrl :: "runtime \<Rightarrow> client \<Rightarrow> jsstring \<Rightarrow> params \<Rightarrow> js_error + string" where
  "buildUrl rt this command ps =
     (case build_url_object rt this command ps of
        Inl e \<Rightarrow> Inl (Error (''Failed to build Things URL: '' @ message e))
      | Inr u \<Rightarrow> Inr (href u))"

text \<open>
  \<open>executeCommand\<close>: build the URL, hand it to \<open>open\<close>, return \<open>true\<close>; any error is
  rethrown with a prefix. The diagnostic lines written to standard error are not modelled.
\<close>

definition executeCommand ::
  "runtime \<Rightarrow> client \<Rightarrow> jsstring \<Rightarrow> params \<Rightarrow> world \<Rightarrow> (js_error + bool) \<times> world" where
  "executeCommand rt this command ps w =
     (case buildUrl rt this command ps of
        Inl e \<Rightarrow> (Inl (Error (''Things command execution failed: '' @ message e)), w)
      | Inr thingsUrl \<Rightarrow>
          (case launch rt w thingsUrl of
             Some m \<Rightarrow> (Inl (Error (''Things command execution failed: '' @ m)), w @ [thingsUrl])
           | None \<Rightarrow> (Inr True, w @ [thingsUrl])))"

definition showList :: "runtime \<Rightarrow> client \<Rightarrow> jsstring \<Rightarrow> world \<Rightarrow> (js_error + bool) \<times> world" where
  "showList rt this ident w = executeCommand rt this (js ''show'') [(js ''id'', JStr ident)] w"

definition showTodayList :: "runtime \<Rightarrow> client \<Rightarrow> world \<Rightarrow> (js_error + bool) \<times> world" where
  "showTodayList rt this w = showList rt this (js ''today'') w"

text \<open>
  The structured inputs of the operations: every field is a string or absent
  (\<open>undefined\<close>); the \<open>todos\<close> of a project are an array of strings or absent.
\<close>

record todo_data =
  t_title :: "jsstring option"
  t_notes :: "jsstring option"
  t_when :: "jsstring option"
  t_deadline :: "jsstring option"
  t_tags :: "jsstring option"
  t_checklist :: "jsstring option"
  t_list :: "jsstring option"

record project_data =
  p_title :: "jsstring option"
  p_notes :: "jsstring option"
  p_when :: "jsstring option"
  p_deadline :: "jsstring option"
  p_tags :: "jsstring option"
  p_area :: "jsstring option"
  p_todos :: "jsstring list option"

record update_data =
  u_id :: "jsstring option"
  u_title :: "jsstring option"
  u_notes :: "jsstring option"
  u_when :: "jsstring option"
  u_deadline :: "jsstring option"
  u_tags :: "jsstring option"
  u_checklist :: "jsstring option"
  u_list :: "jsstring option"

text \<open>\<open>if (data.field) params.field = data.field\<close>: a truthy field is added under its name.\<close>

definition if_truthy :: "string \<Rightarrow> jsstring option \<Rightarrow> params" where
  "if_truthy name v = (if truthy v then [(js name, JStr (the v))] else [])"

text \<open>\<open>if (data.field !== undefined) params.field = data.field\<close>.\<close>

definition if_defined :: "string \<Rightarrow> jsstring option \<Rightarrow> params" where
  "if_defined name v = (case v of None \<Rightarrow> [] | Some s \<Rightarrow> [(js name, JStr s)])"

text \<open>The parameter object \<open>addTodo\<close> builds once the title has passed its check.\<close>

definition addTodo_params :: "todo_data \<Rightarrow> params" where
  "addTodo_params d =
     [(js ''title'', JStr (the (t_title d)))] @
     if_truthy ''notes'' (t_notes d) @
     if_truthy ''when'' (t_when d) @
     if_truthy ''deadline'' (t_deadline d) @
     if_truthy ''tags'' (t_tags d) @
     if_truthy ''checklist'' (t_checklist d) @
     if_truthy ''list'' (t_list d)"

definition addTodo :: "runtime \<Rightarrow> client \<Rightarrow> todo_data \<Rightarrow> world \<Rightarrow> (js_error + bool) \<times> world" where
  "addTodo rt this d w =
     (if \<not> truthy (t_title d) then (Inl (Error ''Todo title is required''), w)
      else executeCommand rt this (js ''add'') (addTodo_params d) w)"

definition addProject_params :: "project_data \<Rightarrow> params" where
  "addProject_params d =
     [(js ''title'', JStr (the (p_title d)))] @
     if_truthy ''notes'' (p_notes d) @
     if_truthy ''when'' (p_when d) @
     if_truthy ''deadline'' (p_deadline d) @
     if_truthy ''tags'' (p_tags d) @
     if_truthy ''area'' (p_area d) @
     (case p_todos d of
        None \<Rightarrow> []
      | Some todos \<Rightarrow> [(js ''todos'', JStr (join [0x0A] todos))])"

definition addProject ::
  "runtime \<Rightarrow> client \<Rightarrow> project_data \<Rightarrow> world \<Rightarrow> (js_error + bool) \<times> world" where
  "addProject rt this d w =
     (if \<not> truthy (p_title d) then (Inl (Error ''Project title is required''), w)
      else executeCommand rt this (js ''add-project'') (addProject_params d) w)"

definition updateTodo_params :: "update_data \<Rightarrow> params" where
  "updateTodo_params d =
     [(js ''id'', JStr (the (u_id d)))] @
     if_defined ''title'' (u_title d) @
     if_defined ''notes'' (u_notes d) @
     if_defined ''when'' (u_when d) @
     if_defined ''deadline'' (u_deadline d) @
     if_defined ''tags'' (u_tags d) @
     if_defined ''checklist'' (u_checklist d) @
     if_defined ''list'' (u_list d)"

definition updateTodo ::
  "runtime \<Rightarrow> client \<Rightarrow> update_data \<Rightarrow> world \<Rightarrow> (js_error + bool) \<times> world" where
  "updateTodo rt this d w =
     (if \<not> truthy (u_id d) then (Inl (Error ''Todo ID is required for updates''), w)
      else executeCommand rt this (js ''update'') (updateTodo_params d) w)"

section \<open>Validation helpers (\<open>utils/validation.js\<close>)\<close>

text \<open>
  \<open>String.prototype.trim\<close> removes the white space and line terminators of ECMAScript
  from both ends.
\<close>

definition js_whitespace :: "code_unit \<Rightarrow> bool" where
  "js_whitespace u \<longleftrightarrow>
     unat u \<in> {0x09, 0x0A, 0x0B, 0x0C, 0x0D, 0x20, 0xA0, 0x1680, 0x2028, 0x2029, 0x202F,
                0x205F, 0x3000, 0xFEFF} \<or>
     (0x2000 \<le> unat u \<and> unat u \<le> 0x200A)"

definition trim :: "jsstring \<Rightarrow> jsstring" where
  "trim s = rev (dropWhile js_whitespace (rev (dropWhile js_whitespace s)))"

definition validListIds :: "jsstring list" where
  "validListIds = map js [''today'', ''inbox'', ''upcoming'', ''anytime'', ''someday'',
     ''projects'', ''areas'', ''logbook'']"

text \<open>
  \<open>validateListId\<close>. \<open>String.prototype.toLowerCase\<close> follows the Unicode case mappings
  and is taken as a parameter. No function of \<open>things-client.js\<close> and no tool handler
  calls \<open>validateListId\<close>.
\<close>

definition validateListId :: "(jsstring \<Rightarrow> jsstring) \<Rightarrow> jsstring option \<Rightarrow> js_error + jsstring" where
  "validateListId toLowerCase listId =
     (if \<not> truthy listId \<or> trim (the listId) = [] then Inl (Error ''List ID is required'')
      else
        (let cleanListId = toLowerCase (trim (the listId))
         in if cleanListId \<notin> set validListIds
            then Inl (Error (''Invalid list ID. Must be one of: '' @
                   ''today, inbox, upcoming, anytime, someday, projects, areas, logbook''))
            else Inr cleanListId))"

text \<open>
  \<open>validateBatchItems\<close> on an array (the \<open>Array.isArray\<close> test always passes here); the
  operation type only words the message and is left out. No tool handler calls it.
\<close>

definition validateBatchItems :: "'a list \<Rightarrow> nat \<Rightarrow> js_error + 'a list" where
  "validateBatchItems items maxItems =
     (if length items = 0 then Inl (Error ''batch operation requires at least one item'')
      else if length items > maxItems then
        Inl (Error (''batch operation supports a maximum of '' @ decimal maxItems @
               '' items at once. Please split your request into smaller batches.''))
      else Inr items)"

section \<open>The \<open>batch_add_todos\<close> tool (\<open>tools/batch-tools.js\<close>)\<close>

text \<open>
  The sizes the input schemas of the batch tools declare (\<open>minItems\<close>, \<open>maxItems\<close>). The
  server hands the arguments of a call to the handler as they come; it does not check them
  against the schema.
\<close>

definition batch_add_todos_maxItems :: nat where
  "batch_add_todos_maxItems = 20"

definition batch_complete_todos_maxItems :: nat where
  "batch_complete_todos_maxItems = 50"

record batch_add_args =
  todos :: "todo_data list option"

record batch_state =
  results :: "jsstring list"
  successCount :: nat
  failureCount :: nat

text \<open>\<open>x && x.trim()\<close> as a condition: present, non-empty, and not white space only.\<close>

definition nonblank :: "jsstring option \<Rightarrow> bool" where
  "nonblank v \<longleftrightarrow> truthy v \<and> trim (the v) \<noteq> []"

text \<open>The cleaned \<open>todoData\<close> object the handler passes to \<open>addTodo\<close>.\<close>

definition batch_todoData :: "todo_data \<Rightarrow> todo_data" where
  "batch_todoData todo =
     \<lparr>t_title = Some (trim (the (t_title todo))),
      t_notes = (if nonblank (t_notes todo) then Some (trim (the (t_notes todo))) else None),
      t_when = (if truthy (t_when todo) then t_when todo else None),
      t_deadline = (if truthy (t_deadline todo) then t_deadline todo else None),
      t_tags = (if nonblank (t_tags todo) then Some (trim (the (t_tags todo))) else None),
      t_checklist = None,
      t_list = (if nonblank (t_list todo) then Some (trim (the (t_list todo))) else None)\<rparr>"

definition check_mark :: code_unit where
  "check_mark = 0x2705"

definition cross_mark :: code_unit where
  "cross_mark = 0x274C"

text \<open>The common head of a result line: mark, \<open> Todo \<close>, the 1-based position, \<open>: "\<close>, a title, \<open>" - \<close>.\<close>

definition line_head :: "code_unit \<Rightarrow> nat \<Rightarrow> jsstring \<Rightarrow> jsstring" where
  "line_head mark i title =
     [mark] @ js '' Todo '' @ js (decimal (i + 1)) @ js '': '' @ [0x22] @ title @ [0x22] @
     js '' - ''"

definition created_line :: "nat \<Rightarrow> jsstring \<Rightarrow> jsstring" where
  "created_line i title = line_head check_mark i title @ js ''Created successfully''"

definition not_created_line :: "nat \<Rightarrow> jsstring \<Rightarrow> jsstring" where
  "not_created_line i title = line_head cross_mark i title @ js ''Failed to create''"

text \<open>The line of the \<open>catch\<close> block: the title as supplied, or \<open>Unknown\<close>.\<close>

definition error_line :: "nat \<Rightarrow> todo_data \<Rightarrow> string \<Rightarrow> jsstring" where
  "error_line i todo m =
     line_head cross_mark i (if truthy (t_title todo) then the (t_title todo) else js ''Unknown'') @
     js ''Error: '' @ js m"

definition record_success :: "batch_state \<Rightarrow> jsstring \<Rightarrow> batch_state" where
  "record_success st line =
     st\<lparr>results := results st @ [line], successCount := successCount st + 1\<rparr>"

definition record_failure :: "batch_state \<Rightarrow> jsstring \<Rightarrow> batch_state" where
  "record_failure st line =
     st\<lparr>results := results st @ [line], failureCount := failureCount st + 1\<rparr>"

text \<open>
  One turn of the \<open>for\<close> loop, for the item at index \<open>i\<close>: the inner \<open>try\<close> with its
  \<open>catch\<close>. The pause between two items is not modelled.
\<close>

definition batch_add_item ::
  "runtime \<Rightarrow> client \<Rightarrow> nat \<Rightarrow> todo_data \<Rightarrow> batch_state \<times> world \<Rightarrow> batch_state \<times> world" where
  "batch_add_item rt this i todo sw =
     (let st = fst sw; w = snd sw in
      if \<not> nonblank (t_title todo) then
        (record_failure st
           (error_line i todo (''Todo '' @ decimal (i + 1) @ '': Title is required'')), w)
      else
        (let todoData = batch_todoData todo in
         case addTodo rt this todoData w of
           (Inr success, w') \<Rightarrow>
             if success
             then (record_success st (created_line i (the (t_title todoData))), w')
             else (record_failure st (not_created_line i (the (t_title todoData))), w')
         | (Inl e, w') \<Rightarrow> (record_failure st (error_line i todo (message e)), w')))"

fun batch_add_loop ::
  "runtime \<Rightarrow> client \<Rightarrow> nat \<Rightarrow> todo_data list \<Rightarrow> batch_state \<times> world \<Rightarrow> batch_state \<times> world" where
  "batch_add_loop rt this i [] sw = sw"
| "batch_add_loop rt this i (todo # rest) sw =
     batch_add_loop rt this (i + 1) rest (batch_add_item rt this i todo sw)"

definition batch_add_report :: "batch_state \<Rightarrow> jsstring" where
  "batch_add_report st =
     js ''Batch add todos completed: '' @ js (decimal (successCount st)) @
     js '' successful, '' @ js (decimal (failureCount st)) @ js '' failed'' @
     [0x0A, 0x0A] @ js ''Detailed Results:'' @ [0x0A] @ join [0x0A] (results st)"

definition not_available :: string where
  "not_available = ''Things app is not available. Make sure you'' @ [CHR 0x27] @
     ''re running on macOS and Things is installed.''"

definition batch_add_todos_handler ::
  "runtime \<Rightarrow> client \<Rightarrow> batch_add_args \<Rightarrow> world \<Rightarrow> (js_error + jsstring) \<times> world" where
  "batch_add_todos_handler rt this args w =
     (if \<not> isThingsAvailable rt then
        (Inl (Error (''Failed to batch add todos: '' @ not_available)), w)
      else if todos args = None \<or> length (the (todos args)) = 0 then
        (Inl (Error (''Failed to batch add todos: '' @
           ''Todos array is required and must contain at least one item'')), w)
      else if \<not> truthy (env_token rt) then
        (Inl (Error (''Failed to batch add todos: '' @
           ''THINGS_AUTHENTICATION_TOKEN is required for batch add operations. '' @
           ''Please set this environment variable.'')), w)
      else
        (let sw = batch_add_loop rt this 0 (the (todos args))
                    (\<lparr>results = [], successCount = 0, failureCount = 0\<rparr>, w)
         in (Inr (batch_add_report (fst sw)), snd sw)))"

section \<open>Notions used in the statements\<close>

text \<open>The characters an encoded component is made of: the unreserved ones and \<open>%\<close>.\<close>

definition component_char :: "char \<Rightarrow> bool" where
  "component_char c \<longleftrightarrow> uri_unreserved (of_char c) \<or> c = CHR ''%''"

text \<open>The characters of a query string assembled by \<open>buildUrl\<close>.\<close>

definition query_plain :: "char \<Rightarrow> bool" where
  "query_plain c \<longleftrightarrow> component_char c \<or> c = CHR ''='' \<or> c = CHR ''&''"

text \<open>The search string \<open>buildUrl\<close> assigns: nothing for no parts, else \<open>?\<close> and the parts joined by \<open>&\<close>.\<close>

definition query_string :: "string list \<Rightarrow> string" where
  "query_string parts = (if parts = [] then [] else ''?'' @ join ''&'' parts)"

text \<open>
  A host used for concrete runs: macOS, a token in the environment, a platform that
  rejects every absolute command, and an \<open>open\<close> that always succeeds.
\<close>

definition no_absolute :: "jsstring \<Rightarrow> url option" where
  "no_absolute command = None"

definition accept :: "string list \<Rightarrow> string \<Rightarrow> string option" where
  "accept w thingsUrl = None"

definition mac :: runtime where
  "mac = \<lparr>os_platform = ''darwin'', env_token = Some (js ''secret''),
     parse_absolute = no_absolute, launch = accept\<rparr>"

definition mac_client :: client where
  "mac_client = \<lparr>authToken = Some (js ''secret'')\<rparr>"

text \<open>
  Reading a URL string back: the text between the first \<open>?\<close> and the next \<open>#\<close>, cut at
  every \<open>&\<close>, each piece cut at its first \<open>=\<close>. Nothing is decoded.
\<close>

fun split_on :: "char \<Rightarrow> string \<Rightarrow> string list" where
  "split_on sep [] = [[]]"
| "split_on sep (c # cs) =
     (if c = sep then [] # split_on sep cs
      else (case split_on sep cs of [] \<Rightarrow> [[c]] | x # xs \<Rightarrow> (c # x) # xs))"

definition name_value :: "string \<Rightarrow> string \<times> string" where
  "name_value p =
     (takeWhile (\<lambda>c. c \<noteq> CHR ''='') p, drop 1 (dropWhile (\<lambda>c. c \<noteq> CHR ''='') p))"

definition search_params :: "string \<Rightarrow> (string \<times> string) list" where
  "search_params thingsUrl =
     (case dropWhile (\<lambda>c. c \<noteq> CHR ''?'') thingsUrl of
        [] \<Rightarrow> []
      | _ # rest \<Rightarrow>
          (let q = takeWhile (\<lambda>c. c \<noteq> CHR ''#'') rest
           in if q = [] then [] else map name_value (split_on CHR ''&'' q)))"

text \<open>Percent-decoding of the URL standard, to bytes.\<close>

definition hex_value :: "char \<Rightarrow> nat option" where
  "hex_value c =
     (let n = of_char c in
      if 48 \<le> n \<and> n \<le> 57 then Some (n - 48)
      else if 65 \<le> n \<and> n \<le> 70 then Some (n - 55)
      else if 97 \<le> n \<and> n \<le> 102 then Some (n - 87)
      else None)"

fun percent_decode :: "string \<Rightarrow> nat list" where
  "percent_decode (c # h # l # cs) =
     (if c = CHR ''%'' then
        (case (hex_value h, hex_value l) of
           (Some a, Some b) \<Rightarrow> (16 * a + b) # percent_decode cs
         | _ \<Rightarrow> of_char c # percent_decode (h # l # cs))
      else of_char c # percent_decode (h # l # cs))"
| "percent_decode (c # cs) = of_char c # percent_decode cs"
| "percent_decode [] = []"

text \<open>The UTF-8 bytes of a JavaScript string.\<close>

definition utf8_bytes :: "jsstring \<Rightarrow> nat list" where
  "utf8_bytes s = concat (map utf8 (code_points (map unat s)))"

text \<open>The characters of one \<open>key=value\<close> part.\<close>

definition part_char :: "char \<Rightarrow> bool" where
  "part_char c \<longleftrightarrow> component_char c \<or> c = CHR ''=''"

text \<open>The encoded form of a string that \<open>encodeURIComponent\<close> accepts.\<close>

definition encoded :: "jsstring \<Rightarrow> string" where
  "encoded s = (case encodeURIComponent s of Inl e \<Rightarrow> [] | Inr e \<Rightarrow> e)"

text \<open>The entries \<open>buildUrl\<close> does not skip, and the name and value each contributes.\<close>

definition defined_entries :: "params \<Rightarrow> params" where
  "defined_entries ps = filter (\<lambda>kv. snd kv \<noteq> JUndefined \<and> snd kv \<noteq> JNull) ps"

definition encoded_entry :: "jsstring \<times> jsval \<Rightarrow> string \<times> string" where
  "encoded_entry kv = (encoded (fst kv), encoded (String_of (snd kv)))"

text \<open>The name and value of the credential part, when \<open>buildUrl\<close> emits one.\<close>

definition auth_entry :: "client \<Rightarrow> jsstring \<Rightarrow> (string \<times> string) list" where
  "auth_entry this command =
     (if truthy (authToken this) \<and> command \<noteq> js ''show''
      then [(''auth-token'', encoded (the (authToken this)))] else [])"

text \<open>Two updates of the item \<open>abc123\<close>: one clears the notes, one changes the title only.\<close>

definition update_clear :: update_data where
  "update_clear = \<lparr>u_id = Some (js ''abc123''), u_title = None, u_notes = Some [],
     u_when = None, u_deadline = None, u_tags = None, u_checklist = None, u_list = None\<rparr>"

definition update_keep :: update_data where
  "update_keep = \<lparr>u_id = Some (js ''abc123''), u_title = Some (js ''Buy milk''),
     u_notes = None, u_when = None, u_deadline = None, u_tags = None, u_checklist = None,
     u_list = None\<rparr>"

text \<open>The project of the end-to-end scenario, and creations that supply a title only.\<close>

definition website_redesign :: project_data where
  "website_redesign = \<lparr>p_title = Some (js ''Website Redesign''), p_notes = None,
     p_when = None, p_deadline = None, p_tags = None, p_area = None,
     p_todos = Some [js ''Create wireframes'', js ''Design mockups'']\<rparr>"

definition todo_titled :: "jsstring \<Rightarrow> todo_data" where
  "todo_titled t = \<lparr>t_title = Some t, t_notes = None, t_when = None, t_deadline = None,
     t_tags = None, t_checklist = None, t_list = None\<rparr>"

definition project_titled :: "jsstring \<Rightarrow> project_data" where
  "project_titled t = \<lparr>p_title = Some t, p_notes = None, p_when = None, p_deadline = None,
     p_tags = None, p_area = None, p_todos = None\<rparr>"



section \<open>Encoding facts\<close>


lemma of_char_lt_65536: "(of_char c :: nat) < 65536"
  using nat_of_char_less_256 [of c] by linarith

lemma unat_unit_of_char [simp]: "unat (unit_of_char c) = of_char c"
  by (simp add: unit_of_char_def unat_of_nat of_char_lt_65536)

lemma js_Nil: "js [] = []"
  by (simp add: js_def)

lemma js_Cons: "js (c # s) = unit_of_char c # js s"
  by (simp add: js_def)

lemma unit_of_char_inject [simp]: "unit_of_char c = unit_of_char d \<longleftrightarrow> c = d"
proof
  assume "unit_of_char c = unit_of_char d"
  then have "unat (unit_of_char c) = unat (unit_of_char d)" by simp
  then show "c = d" by simp
qed simp

lemma length_js [simp]: "length (js s) = length s"
  by (simp add: js_def)

lemma map_unat_js [simp]: "map unat (js s) = map of_char s"
  by (simp add: js_def comp_def)

lemma char_of_nat_eval:
  "char_of (n::nat) = Char (odd n) (odd (n div 2)) (odd (n div 4)) (odd (n div 8))
     (odd (n div 16)) (odd (n div 32)) (odd (n div 64)) (odd (n div 128))"
  by (simp add: char_of_def bit_iff_odd)

lemma hex_digit_cases: "hex_digit n \<in> set ''0123456789ABCDEF''"
  unfolding hex_digit_def by (rule nth_mem) simp

lemma hex_digit_component: "component_char (hex_digit n)"
  using hex_digit_cases [of n] by (auto simp: component_char_def uri_unreserved_def)

lemma pct_byte_component: "c \<in> set (pct_byte b) \<Longrightarrow> component_char c"
  using hex_digit_component [of "b div 16"] hex_digit_component [of "b mod 16"]
  by (auto simp: pct_byte_def component_char_def)

lemma pct_utf8_component: "c \<in> set (pct_utf8 cp) \<Longrightarrow> component_char c"
  by (auto simp: pct_utf8_def dest: pct_byte_component)

lemma unreserved_lt_128: "uri_unreserved u \<Longrightarrow> u < 128"
  by (auto simp: uri_unreserved_def)

lemma unreserved_mod: "uri_unreserved u \<Longrightarrow> u mod 256 = u"
  by (drule unreserved_lt_128) simp

lemma unreserved_char_of: "uri_unreserved u \<Longrightarrow> component_char (char_of u)"
  by (simp add: component_char_def unreserved_mod)

lemma enc_units_component: "enc_units us = Some s \<Longrightarrow> c \<in> set s \<Longrightarrow> component_char c"
proof (induction us arbitrary: s rule: enc_units.induct)
  case 1
  then show ?case by simp
next
  case (2 u us)
  then show ?case
    by (auto simp: unreserved_char_of split: if_splits list.splits dest: pct_utf8_component)
qed


lemma query_plain_not_query_set: "query_plain c \<Longrightarrow> \<not> query_set (of_char c)"
  by (auto simp: query_plain_def component_char_def uri_unreserved_def query_set_def c0_control_set_def)

lemma query_plain_not_tab: "query_plain c \<Longrightarrow> \<not> tab_or_newline (of_char c)"
  by (auto simp: query_plain_def component_char_def uri_unreserved_def tab_or_newline_def)

lemma search_encode_plain:
  "\<forall>c\<in>set q. query_plain c \<Longrightarrow> search_encode False q = q"
proof (induction q)
  case Nil
  then show ?case by (simp add: search_encode_def percent_encode_string_def)
next
  case (Cons c q)
  then have "search_encode False q = q" by simp
  moreover have "\<not> tab_or_newline (of_char c)" "\<not> query_set (of_char c)"
    using Cons.prems by (simp_all add: query_plain_not_tab query_plain_not_query_set)
  ultimately show ?case
    by (simp add: search_encode_def percent_encode_string_def utf8_percent_encode_def)
qed

lemma set_search_question:
  "set_search u (CHR ''?'' # q) = u\<lparr>url_query := Some (search_encode (is_special u) q)\<rparr>"
  by (simp add: set_search_def search_encode_def)

lemma set_join_subset: "set (join sep xs) \<subseteq> set sep \<union> \<Union> (set ` set xs)"
  by (induction sep xs rule: join.induct) auto

lemma encodeURIComponent_component:
  "encodeURIComponent s = Inr e \<Longrightarrow> c \<in> set e \<Longrightarrow> component_char c"
  by (auto simp: encodeURIComponent_def split: option.splits dest: enc_units_component)

lemma auth_token_literal_plain: "\<forall>c\<in>set ''auth-token=''. query_plain c"
  by (simp add: query_plain_def component_char_def uri_unreserved_def)

lemma component_plain: "component_char c \<Longrightarrow> query_plain c"
  by (simp add: query_plain_def)

lemma pair_part_plain:
  assumes "encodeURIComponent k = Inr ek" "encodeURIComponent v = Inr ev"
    and "c \<in> set (ek @ ''='' @ ev)"
  shows "query_plain c"
proof -
  from assms(3) consider "c \<in> set ek" | "c = CHR ''=''" | "c \<in> set ev" by auto
  then show ?thesis
  proof cases
    case 1 then show ?thesis using assms(1) encodeURIComponent_component component_plain by blast
  next
    case 2 then show ?thesis by (simp add: query_plain_def)
  next
    case 3 then show ?thesis using assms(2) encodeURIComponent_component component_plain by blast
  qed
qed

lemma param_parts_plain:
  "param_parts ps = Inr parts \<Longrightarrow> p \<in> set parts \<Longrightarrow> c \<in> set p \<Longrightarrow> query_plain c"
proof (induction ps arbitrary: parts rule: param_parts.induct)
  case 1
  then show ?case by simp
next
  case (2 key v ps)
  show ?case
  proof (cases "v \<noteq> JUndefined \<and> v \<noteq> JNull")
    case False
    then show ?thesis using 2 by auto
  next
    case True
    with "2.prems"(1) obtain ek ev rest where
      ek: "encodeURIComponent key = Inr ek" and ev: "encodeURIComponent (String_of v) = Inr ev"
      and rest: "param_parts ps = Inr rest" and parts: "parts = (ek @ ''='' @ ev) # rest"
      by (auto split: sum.splits)
    from "2.prems"(2) parts consider "p = ek @ ''='' @ ev" | "p \<in> set rest" by auto
    then show ?thesis
    proof cases
      case 1 then show ?thesis using pair_part_plain [OF ek ev] "2.prems"(3) by simp
    next
      case 2 then show ?thesis using "2.IH"(1) True ek ev rest "2.prems"(3) by blast
    qed
  qed
qed

lemma auth_parts_plain:
  "auth_parts this command = Inr parts \<Longrightarrow> p \<in> set parts \<Longrightarrow> c \<in> set p \<Longrightarrow> query_plain c"
proof (cases "truthy (authToken this) \<and> command \<noteq> js ''show''")
  case False
  then show "auth_parts this command = Inr parts \<Longrightarrow> p \<in> set parts \<Longrightarrow> query_plain c"
    by (simp add: auth_parts_def)
next
  case True
  assume a: "auth_parts this command = Inr parts" and p: "p \<in> set parts" and c: "c \<in> set p"
  from a True obtain et where et: "encodeURIComponent (the (authToken this)) = Inr et"
    and parts: "parts = [''auth-token='' @ et]"
    by (auto simp: auth_parts_def split: sum.splits)
  from p parts have "p = ''auth-token='' @ et" by simp
  with c have "c \<in> set ''auth-token='' \<union> set et" by (simp only: set_append)
  then consider "c \<in> set ''auth-token=''" | "c \<in> set et" by blast
  then show "query_plain c"
  proof cases
    case 1 then show ?thesis using auth_token_literal_plain by (rule_tac bspec)
  next
    case 2 then show ?thesis using et encodeURIComponent_component component_plain by blast
  qed
qed

lemma joined_parts_plain:
  assumes "auth_parts this command = Inr a" "param_parts ps = Inr p"
  shows "\<forall>c\<in>set (join ''&'' (a @ p)). query_plain c"
proof
  fix c assume "c \<in> set (join ''&'' (a @ p))"
  then have "c \<in> set ''&'' \<union> \<Union> (set ` set (a @ p))"
    using set_join_subset [of "''&''" "a @ p"] by (rule_tac subsetD)
  then have "c = CHR ''&'' \<or> (\<exists>x\<in>set a. c \<in> set x) \<or> (\<exists>x\<in>set p. c \<in> set x)"
    by simp
  then consider "c = CHR ''&''" | x where "x \<in> set a" "c \<in> set x" | x where "x \<in> set p" "c \<in> set x"
    by blast
  then show "query_plain c"
  proof cases
    case 1 then show ?thesis by (simp add: query_plain_def)
  next
    case 2 then show ?thesis using assms(1) auth_parts_plain by blast
  next
    case 3 then show ?thesis using assms(2) param_parts_plain by blast
  qed
qed

lemma URL_new_empty: "URL_new pa [] = Inr baseUrl"
  by (simp add: URL_new_def leaves_base_def resolve_relative_def prepare_input_def has_scheme_def)

lemma is_special_baseUrl: "\<not> is_special baseUrl"
  by (simp add: is_special_def baseUrl_def)

lemma href_baseUrl_query: "href (baseUrl\<lparr>url_query := Some q\<rparr>) = ''things:///'' @ ''?'' @ q"
  by (simp add: href_def href_head_def baseUrl_def serialize_path_def)

lemma href_baseUrl: "href baseUrl = ''things:///''"
  by (simp add: href_def href_head_def baseUrl_def serialize_path_def)

section \<open>Parts of the query and reading a URL back\<close>


lemma component_part: "component_char c \<Longrightarrow> part_char c"
  by (simp add: part_char_def)

lemma part_plain: "part_char c \<Longrightarrow> query_plain c"
  by (auto simp: part_char_def query_plain_def)

lemma component_not_eq: "component_char c \<Longrightarrow> c \<noteq> CHR ''=''"
  by (auto simp: component_char_def uri_unreserved_def)

lemma part_char_not_sep:
  "part_char c \<Longrightarrow> c \<noteq> CHR ''&'' \<and> c \<noteq> CHR ''#'' \<and> c \<noteq> CHR ''?'' \<and> c \<noteq> CHR ''+''"
  by (auto simp: part_char_def component_char_def uri_unreserved_def)

lemma encoded_eq: "encodeURIComponent s = Inr e \<Longrightarrow> encoded s = e"
  by (simp add: encoded_def)

lemma name_value_pair:
  assumes "\<forall>c\<in>set k. component_char c"
  shows "name_value (k @ ''='' @ v) = (k, v)"
proof -
  have "\<forall>c\<in>set k. c \<noteq> CHR ''=''" using assms component_not_eq by blast
  then have "takeWhile (\<lambda>c. c \<noteq> CHR ''='') (k @ CHR ''='' # v) = k"
    and "dropWhile (\<lambda>c. c \<noteq> CHR ''='') (k @ CHR ''='' # v) = CHR ''='' # v"
    by (simp_all add: takeWhile_append2 dropWhile_append2)
  then show ?thesis by (simp add: name_value_def)
qed

lemma param_parts_entries:
  "param_parts ps = Inr parts \<Longrightarrow>
     map name_value parts = map encoded_entry (defined_entries ps) \<and>
     (\<forall>p\<in>set parts. \<forall>c\<in>set p. part_char c) \<and> [] \<notin> set parts \<and>
     length parts = length (defined_entries ps)"
proof (induction ps arbitrary: parts rule: param_parts.induct)
  case 1
  then show ?case by (simp add: defined_entries_def)
next
  case (2 key v ps)
  show ?case
  proof (cases "v \<noteq> JUndefined \<and> v \<noteq> JNull")
    case False
    then have "param_parts ps = Inr parts" using "2.prems" by auto
    then show ?thesis using "2.IH"(2) False by (auto simp: defined_entries_def)
  next
    case True
    with "2.prems" obtain ek ev rest where
      ek: "encodeURIComponent key = Inr ek" and ev: "encodeURIComponent (String_of v) = Inr ev"
      and rest: "param_parts ps = Inr rest" and parts: "parts = (ek @ ''='' @ ev) # rest"
      by (auto split: sum.splits)
    have IH: "map name_value rest = map encoded_entry (defined_entries ps) \<and>
       (\<forall>p\<in>set rest. \<forall>c\<in>set p. part_char c) \<and> [] \<notin> set rest \<and>
       length rest = length (defined_entries ps)"
      using "2.IH"(1) True ek ev rest by blast
    have kc: "\<forall>c\<in>set ek. component_char c" using ek encodeURIComponent_component by blast
    have vc: "\<forall>c\<in>set ev. component_char c" using ev encodeURIComponent_component by blast
    have nv: "name_value (ek @ ''='' @ ev) = (encoded key, encoded (String_of v))"
      using name_value_pair [OF kc] ek ev by (simp add: encoded_eq)
    have pc: "\<forall>c\<in>set (ek @ ''='' @ ev). part_char c"
      using kc vc by (auto simp: part_char_def)
    have de: "defined_entries ((key, v) # ps) = (key, v) # defined_entries ps"
      using True by (simp add: defined_entries_def)
    show ?thesis
      unfolding parts de using IH nv pc by (simp add: encoded_entry_def)
  qed
qed

lemma split_on_join:
  "parts \<noteq> [] \<Longrightarrow> \<forall>p\<in>set parts. sep \<notin> set p \<Longrightarrow> split_on sep (join [sep] parts) = parts"
proof (induction "[sep]" parts rule: join.induct)
  case 1
  then show ?case by simp
next
  case (2 x)
  then have "sep \<notin> set x" by simp
  then have "split_on sep x = [x]"
    by (induction x) (auto split: list.splits)
  then show ?case by simp
next
  case (3 x y ys)
  then have IH: "split_on sep (join [sep] (y # ys)) = y # ys" by simp
  from 3 have "sep \<notin> set x" by simp
  then have "split_on sep (x @ sep # rest) = x # split_on sep rest" for rest
    by (induction x) (auto split: list.splits)
  then show ?case using IH by simp
qed

lemma search_params_query_string:
  assumes "CHR ''?'' \<notin> set pre" and "\<forall>p\<in>set parts. \<forall>c\<in>set p. part_char c"
    and "[] \<notin> set parts"
  shows "search_params (pre @ query_string parts) = map name_value parts"
proof (cases "parts = []")
  case True
  have dw: "dropWhile (\<lambda>c. c \<noteq> CHR ''?'') pre = []" using assms(1) by auto
  show ?thesis
    by (simp add: search_params_def query_string_def True dw)
next
  case False
  let ?q = "join ''&'' parts"
  have amp: "\<forall>p\<in>set parts. CHR ''&'' \<notin> set p" using assms(2) part_char_not_sep by blast
  have "set ?q \<subseteq> set ''&'' \<union> \<Union> (set ` set parts)" by (rule set_join_subset)
  then have hash: "\<forall>c\<in>set ?q. c \<noteq> CHR ''#''"
    using assms(2) part_char_not_sep by fastforce
  have ne: "?q \<noteq> []"
  proof -
    obtain x xs where "parts = x # xs" using False by (cases parts) auto
    moreover have "x \<noteq> []" using assms(3) calculation by auto
    ultimately show ?thesis by (cases xs) auto
  qed
  have np: "\<And>c. c \<in> set pre \<Longrightarrow> c \<noteq> CHR ''?''" using assms(1) by auto
  have d: "dropWhile (\<lambda>c. c \<noteq> CHR ''?'') (pre @ CHR ''?'' # ?q) = CHR ''?'' # ?q"
    by (simp add: np)
  have t: "takeWhile (\<lambda>c. c \<noteq> CHR ''#'') ?q = ?q"
    using hash by simp
  show ?thesis
    by (simp add: search_params_def query_string_def False d t ne split_on_join [OF False amp]
        Let_def)
qed


section \<open>Rule sets for running the model on concrete inputs\<close>

lemmas eval_enc = js_Nil js_Cons encodeURIComponent_def uri_unreserved_def low_surrogate_def
  high_surrogate_def pct_utf8_def utf8_def pct_byte_def hex_digit_def char_of_nat_eval
  pair_code_point_def

lemmas eval_url = URL_new_def leaves_base_def resolve_relative_def prepare_input_def has_scheme_def ascii_alpha_def
  ascii_alphanumeric_def c0_or_space_def tab_or_newline_def end_segment_def single_dot_def
  double_dot_def shorten_def query_state_def fragment_state_def utf8_percent_encode_def
  percent_encode_string_def path_set_def query_set_def special_query_set_def fragment_set_def
  c0_control_set_def set_search_def search_encode_def is_special_def baseUrl_def href_def
  href_head_def serialize_path_def

lemmas eval_client = buildUrl_def build_url_object_def auth_parts_def truthy_def
  executeCommand_def mac_def mac_client_def no_absolute_def accept_def query_string_def

section \<open>The URL of a known command\<close>


lemma auth_parts_entries:
  assumes "auth_parts this command = Inr a"
  shows "map name_value a = auth_entry this command \<and>
         (\<forall>p\<in>set a. \<forall>c\<in>set p. part_char c) \<and> [] \<notin> set a"
proof (cases "truthy (authToken this) \<and> command \<noteq> js ''show''")
  case False
  then show ?thesis using assms by (auto simp: auth_parts_def auth_entry_def)
next
  case True
  with assms obtain et where et: "encodeURIComponent (the (authToken this)) = Inr et"
    and a: "a = [''auth-token='' @ et]"
    by (auto simp: auth_parts_def split: sum.splits)
  have lit: "\<forall>c\<in>set ''auth-token''. component_char c"
    by (simp add: component_char_def uri_unreserved_def)
  have etc: "\<forall>c\<in>set et. component_char c" using et encodeURIComponent_component by blast
  have nv: "name_value (''auth-token'' @ ''='' @ et) = (''auth-token'', et)"
    by (rule name_value_pair [OF lit])
  have pc: "\<forall>c\<in>set (''auth-token'' @ ''='' @ et). part_char c"
    using lit etc by (simp add: part_char_def ball_Un)
  show ?thesis
    using True nv pc et unfolding a by (simp add: auth_entry_def encoded_eq)
qed

lemma URL_new_add: "URL_new pa (js ''add'') = Inr (baseUrl\<lparr>url_path := Segments [''add'']\<rparr>)"
  by (simp add: eval_url eval_enc)

lemma URL_new_add_project:
  "URL_new pa (js ''add-project'') = Inr (baseUrl\<lparr>url_path := Segments [''add-project'']\<rparr>)"
  by (simp add: eval_url eval_enc)

lemma URL_new_update:
  "URL_new pa (js ''update'') = Inr (baseUrl\<lparr>url_path := Segments [''update'']\<rparr>)"
  by (simp add: eval_url eval_enc)

lemma URL_new_show: "URL_new pa (js ''show'') = Inr (baseUrl\<lparr>url_path := Segments [''show'']\<rparr>)"
  by (simp add: eval_url eval_enc)

lemma join_parts_plain:
  assumes "\<forall>p\<in>set parts. \<forall>c\<in>set p. part_char c"
  shows "\<forall>c\<in>set (join ''&'' parts). query_plain c"
proof
  fix c assume "c \<in> set (join ''&'' parts)"
  then have "c \<in> set ''&'' \<union> \<Union> (set ` set parts)"
    using set_join_subset [of "''&''" parts] by (rule_tac subsetD)
  then have "c = CHR ''&'' \<or> (\<exists>x\<in>set parts. c \<in> set x)" by simp
  then show "query_plain c"
    using assms part_plain by (auto simp: query_plain_def)
qed

lemma build_url_object_eq:
  assumes "URL_new (parse_absolute rt) command = Inr u0" "auth_parts this command = Inr a"
    "param_parts ps = Inr p"
  shows "build_url_object rt this command ps =
     Inr (if a @ p = [] then u0
          else u0\<lparr>url_query := Some (search_encode (is_special u0) (join ''&'' (a @ p)))\<rparr>)"
  by (simp add: build_url_object_def assms set_search_question Let_def)

lemma buildUrl_segment:
  assumes u0: "URL_new (parse_absolute rt) command = Inr (baseUrl\<lparr>url_path := Segments [seg]\<rparr>)"
    and b: "buildUrl rt this command ps = Inr thingsUrl"
  shows "\<exists>a p. auth_parts this command = Inr a \<and> param_parts ps = Inr p \<and>
           thingsUrl = ''things:///'' @ seg @ query_string (a @ p)"
proof -
  from b u0 obtain a p where a: "auth_parts this command = Inr a" and p: "param_parts ps = Inr p"
    by (auto simp: buildUrl_def build_url_object_def split: sum.splits)
  have pc: "\<forall>x\<in>set (a @ p). \<forall>c\<in>set x. part_char c"
    using auth_parts_entries [OF a] param_parts_entries [OF p] by auto
  have se: "search_encode False (join ''&'' (a @ p)) = join ''&'' (a @ p)"
    using join_parts_plain [OF pc] by (rule search_encode_plain)
  let ?u = "baseUrl\<lparr>url_path := Segments [seg]\<rparr>"
  have ns: "\<not> is_special ?u"
    by (simp add: is_special_def baseUrl_def)
  have h0: "href ?u = ''things:///'' @ seg"
    by (simp add: href_def href_head_def baseUrl_def serialize_path_def)
  have h1: "href (?u\<lparr>url_query := Some q\<rparr>) = ''things:///'' @ seg @ ''?'' @ q" for q
    by (simp add: href_def href_head_def baseUrl_def serialize_path_def)
  define parts where "parts = a @ p"
  have se': "search_encode False (join ''&'' parts) = join ''&'' parts"
    using se by (simp add: parts_def)
  have obj: "build_url_object rt this command ps =
      Inr (if parts = [] then ?u else ?u\<lparr>url_query := Some (join ''&'' parts)\<rparr>)"
    unfolding build_url_object_eq [OF u0 a p] parts_def [symmetric]
    by (simp add: ns se')
  have "thingsUrl = ''things:///'' @ seg @ query_string parts"
  proof (cases "parts = []")
    case True
    have "thingsUrl = href ?u" using b unfolding buildUrl_def obj by (simp add: True)
    then show ?thesis by (simp add: h0 query_string_def True)
  next
    case False
    have "thingsUrl = href (?u\<lparr>url_query := Some (join ''&'' parts)\<rparr>)"
      using b unfolding buildUrl_def obj by (simp add: False)
    then show ?thesis by (simp add: h1 query_string_def False)
  qed
  then show ?thesis using a p by (auto simp: parts_def)
qed

lemma search_params_segment:
  assumes u0: "URL_new (parse_absolute rt) command = Inr (baseUrl\<lparr>url_path := Segments [seg]\<rparr>)"
    and b: "buildUrl rt this command ps = Inr thingsUrl"
    and seg: "CHR ''?'' \<notin> set seg"
  shows "search_params thingsUrl = auth_entry this command @ map encoded_entry (defined_entries ps)"
proof -
  from buildUrl_segment [OF u0 b] obtain a p where
    a: "auth_parts this command = Inr a" and p: "param_parts ps = Inr p"
    and url: "thingsUrl = (''things:///'' @ seg) @ query_string (a @ p)" by auto
  have pc: "\<forall>x\<in>set (a @ p). \<forall>c\<in>set x. part_char c" and ne: "[] \<notin> set (a @ p)"
    using auth_parts_entries [OF a] param_parts_entries [OF p] by auto
  have q: "CHR ''?'' \<notin> set (''things:///'' @ seg)" using seg by simp
  show ?thesis
    unfolding url search_params_query_string [OF q pc ne]
    using auth_parts_entries [OF a] param_parts_entries [OF p] by simp
qed


section \<open>Decoding an encoded component\<close>


lemma hex_value_hex_digit: "hex_value (hex_digit n) = Some (n mod 16)"
proof -
  have "\<forall>m\<in>set [0..<16]. hex_value (''0123456789ABCDEF'' ! m) = Some m"
    by (simp add: upt_rec hex_value_def)
  moreover have "n mod 16 \<in> set [0..<16]" by simp
  ultimately show ?thesis unfolding hex_digit_def by blast
qed

lemma percent_decode_plain: "c \<noteq> CHR ''%'' \<Longrightarrow> percent_decode (c # cs) = of_char c # percent_decode cs"
  by (cases cs rule: percent_decode.cases) (auto split: list.splits)

lemma percent_decode_pct_byte:
  "b < 256 \<Longrightarrow> percent_decode (pct_byte b @ rest) = b # percent_decode rest"
  by (simp add: pct_byte_def hex_value_hex_digit)

lemma percent_decode_pct_bytes:
  "\<forall>b\<in>set bs. b < 256 \<Longrightarrow>
     percent_decode (concat (map pct_byte bs) @ rest) = bs @ percent_decode rest"
  by (induction bs) (simp_all add: percent_decode_pct_byte)

lemma utf8_bytes_lt: "cp < 0x110000 \<Longrightarrow> \<forall>b\<in>set (utf8 cp). b < 256"
  by (auto simp: utf8_def)

lemma percent_decode_pct_utf8:
  "cp < 0x110000 \<Longrightarrow> percent_decode (pct_utf8 cp @ rest) = utf8 cp @ percent_decode rest"
  unfolding pct_utf8_def by (rule percent_decode_pct_bytes) (rule utf8_bytes_lt)

lemma pair_code_point_lt:
  assumes "high_surrogate hi" "low_surrogate lo"
  shows "pair_code_point hi lo < 0x110000"
proof -
  have "hi - 0xD800 \<le> 1023" using assms(1) unfolding high_surrogate_def by linarith
  then have "(hi - 0xD800) * 0x400 \<le> 1023 * 0x400" by (rule mult_le_mono1)
  moreover have "lo - 0xDC00 \<le> 1023" using assms(2) unfolding low_surrogate_def by linarith
  ultimately show ?thesis unfolding pair_code_point_def by linarith
qed

lemma unreserved_facts:
  assumes "uri_unreserved u"
  shows "char_of u \<noteq> CHR ''%''" "of_char (char_of u) = u" "utf8 u = [u]"
    "\<not> high_surrogate u" "\<not> low_surrogate u"
proof -
  have lt: "u < 128" using assms by (rule unreserved_lt_128)
  show oc: "of_char (char_of u) = u" using lt by simp
  show "char_of u \<noteq> CHR ''%''"
  proof
    assume "char_of u = CHR ''%''"
    then have "of_char (char_of u) = (37::nat)" by simp
    with oc have "u = 37" by simp
    then show False using assms by (simp add: uri_unreserved_def)
  qed
  show "utf8 u = [u]" using lt by (simp add: utf8_def)
  show "\<not> high_surrogate u" "\<not> low_surrogate u"
    using lt by (simp_all add: high_surrogate_def low_surrogate_def)
qed

lemma enc_units_decode:
  "enc_units us = Some e \<Longrightarrow> \<forall>u\<in>set us. u < 65536 \<Longrightarrow>
     percent_decode e = concat (map utf8 (code_points us))"
proof (induction us arbitrary: e rule: enc_units.induct)
  case 1
  then show ?case by simp
next
  case (2 u us)
  show ?case
  proof (cases "uri_unreserved u")
    case True
    with "2.prems" obtain e' where e': "enc_units us = Some e'" and e: "e = char_of u # e'"
      by auto
    have "percent_decode e' = concat (map utf8 (code_points us))"
      using "2.IH"(1) True e' "2.prems"(2) by simp
    then show ?thesis
      unfolding e using unreserved_facts [OF True] by (simp add: percent_decode_plain)
  next
    case nu: False
    show ?thesis
    proof (cases "low_surrogate u")
      case True
      then show ?thesis using "2.prems" nu by simp
    next
      case nl: False
      show ?thesis
      proof (cases "high_surrogate u")
        case True
        with "2.prems" nu nl obtain l rest e' where us: "us = l # rest" and l: "low_surrogate l"
          and e': "enc_units rest = Some e'" and e: "e = pct_utf8 (pair_code_point u l) @ e'"
          by (auto split: list.splits if_splits)
        have "percent_decode e' = concat (map utf8 (code_points rest))"
          using "2.IH"(2) nu nl True us l e' "2.prems"(2) by simp
        then show ?thesis
          unfolding e us using True l nl
          by (simp add: percent_decode_pct_utf8 pair_code_point_lt)
      next
        case False
        with "2.prems" nu nl obtain e' where e': "enc_units us = Some e'"
          and e: "e = pct_utf8 u @ e'"
          by auto
        have "percent_decode e' = concat (map utf8 (code_points us))"
          using "2.IH"(3) nu nl False e' "2.prems"(2) by simp
        moreover have "u < 0x110000" using "2.prems"(2) by simp
        ultimately show ?thesis
          unfolding e using False nl by (simp add: percent_decode_pct_utf8)
      qed
    qed
  qed
qed

lemma encodeURIComponent_decode:
  assumes "encodeURIComponent s = Inr e"
  shows "percent_decode e = utf8_bytes s"
proof -
  have "enc_units (map unat s) = Some e"
    using assms by (simp add: encodeURIComponent_def split: option.splits)
  moreover have "\<forall>u\<in>set (map unat s). u < 65536"
  proof
    fix u assume "u \<in> set (map unat s)"
    then obtain x :: "16 word" where "u = unat x" by auto
    moreover have "unat x < 2 ^ LENGTH(16)" by (rule unsigned_less)
    ultimately show "u < 65536" by simp
  qed
  ultimately show ?thesis unfolding utf8_bytes_def by (rule enc_units_decode)
qed


section \<open>Entries and names of the parameter objects\<close>


lemma executeCommand_world:
  "snd (executeCommand rt this command ps w) =
     (case buildUrl rt this command ps of Inl e \<Rightarrow> w | Inr thingsUrl \<Rightarrow> w @ [thingsUrl])"
  by (simp add: executeCommand_def split: sum.splits option.splits)

lemma executeCommand_opened:
  "snd (executeCommand rt this command ps w) = w @ [thingsUrl] \<Longrightarrow>
     buildUrl rt this command ps = Inr thingsUrl"
  by (simp add: executeCommand_world split: sum.splits)

lemma encoded_names:
  "encoded (js ''id'') = ''id''" "encoded (js ''title'') = ''title''"
  "encoded (js ''notes'') = ''notes''" "encoded (js ''when'') = ''when''"
  "encoded (js ''deadline'') = ''deadline''" "encoded (js ''tags'') = ''tags''"
  "encoded (js ''checklist'') = ''checklist''" "encoded (js ''list'') = ''list''"
  "encoded (js ''area'') = ''area''" "encoded (js ''todos'') = ''todos''"
  "encoded [] = []"
  by (simp_all add: encoded_def eval_enc)

lemma defined_entries_append: "defined_entries (a @ b) = defined_entries a @ defined_entries b"
  by (simp add: defined_entries_def)

lemma defined_entries_if_defined: "defined_entries (if_defined n v) = if_defined n v"
  by (simp add: defined_entries_def if_defined_def split: option.splits)

lemma defined_entries_if_truthy: "defined_entries (if_truthy n v) = if_truthy n v"
  by (simp add: defined_entries_def if_truthy_def)

lemma defined_entries_str: "defined_entries ((k, JStr s) # ps) = (k, JStr s) # defined_entries ps"
  by (simp add: defined_entries_def)

lemma defined_entries_Nil: "defined_entries [] = []"
  by (simp add: defined_entries_def)

lemma js_inject [simp]: "js s = js t \<longleftrightarrow> s = t"
proof -
  have "inj unit_of_char" by (rule injI) simp
  then have "inj (map unit_of_char)" by simp
  then show ?thesis unfolding js_def by (simp add: inj_eq)
qed

lemma keys_if_defined: "map fst (if_defined n v) = (if v = None then [] else [js n])"
  by (simp add: if_defined_def split: option.splits)

lemma keys_if_truthy: "map fst (if_truthy n v) = (if truthy v then [js n] else [])"
  by (simp add: if_truthy_def)

lemma names_if_defined:
  "map (fst \<circ> encoded_entry) (if_defined n v) = (if v = None then [] else [encoded (js n)])"
  by (simp add: if_defined_def encoded_entry_def split: option.splits)

lemma names_if_truthy:
  "map (fst \<circ> encoded_entry) (if_truthy n v) = (if truthy v then [encoded (js n)] else [])"
  by (simp add: if_truthy_def encoded_entry_def)

lemma auth_entry_names: "set (map fst (auth_entry this command)) \<subseteq> {''auth-token''}"
  by (auto simp: auth_entry_def)

lemma updateTodo_names:
  "set (map (fst \<circ> encoded_entry) (defined_entries (updateTodo_params d))) \<subseteq>
     {''id'', ''title'', ''when'', ''deadline'', ''tags'', ''checklist'', ''list''} \<union>
     (if u_notes d = None then {} else {''notes''})"
  by (simp add: updateTodo_params_def defined_entries_append defined_entries_if_defined
      defined_entries_str defined_entries_Nil names_if_defined encoded_names)
     (auto simp: encoded_entry_def encoded_names)


lemma if_truthy_empty: "if_truthy n (Some []) = if_truthy n None"
  by (simp add: if_truthy_def truthy_def)




lemma defined_entries_addProject: "defined_entries (addProject_params d) = addProject_params d"
  by (simp add: addProject_params_def defined_entries_append defined_entries_if_truthy
      defined_entries_str defined_entries_Nil split: option.splits)

lemma map_of_if_truthy_other: "k \<noteq> js n \<Longrightarrow> map_of (if_truthy n v) k = None"
  by (simp add: if_truthy_def)

lemma map_of_encoded_if_truthy:
  "k \<noteq> encoded (js n) \<Longrightarrow> map_of (map encoded_entry (if_truthy n v)) k = None"
  by (simp add: if_truthy_def encoded_entry_def)

lemma map_of_auth_entry: "k \<noteq> ''auth-token'' \<Longrightarrow> map_of (auth_entry this command) k = None"
  by (simp add: auth_entry_def)

lemma param_parts_value:
  "param_parts ps = Inr parts \<Longrightarrow> (k, JStr v) \<in> set ps \<Longrightarrow> \<exists>e. encodeURIComponent v = Inr e"
proof (induction ps arbitrary: parts rule: param_parts.induct)
  case 1
  then show ?case by simp
next
  case (2 key val ps)
  then show ?case by (auto split: if_splits sum.splits)
qed


section \<open>The credential part\<close>


lemma search_encode_append: "search_encode sp (a @ b) = search_encode sp a @ search_encode sp b"
  by (simp add: search_encode_def percent_encode_string_def)

lemma search_encode_Nil: "search_encode sp [] = []"
  by (simp add: search_encode_def percent_encode_string_def)

lemma query_plain_not_special_set:
  "query_plain c \<Longrightarrow> c \<noteq> CHR 0x27 \<Longrightarrow> \<not> special_query_set (of_char c)"
proof -
  assume qp: "query_plain c" and ne: "c \<noteq> CHR 0x27"
  have "(of_char c :: nat) \<noteq> 39"
  proof
    assume "(of_char c :: nat) = 39"
    then have "(of_char c :: nat) = of_char (CHR 0x27)" by simp
    then show False using ne by (simp only: of_char_eq_iff)
  qed
  then show ?thesis
    using query_plain_not_query_set [OF qp] by (simp add: special_query_set_def)
qed

lemma search_encode_stable:
  "\<forall>c\<in>set q. query_plain c \<and> c \<noteq> CHR 0x27 \<Longrightarrow> search_encode sp q = q"
proof (induction q)
  case Nil
  then show ?case by (simp add: search_encode_Nil)
next
  case (Cons c q)
  then have "search_encode sp q = q" by simp
  moreover have "\<not> tab_or_newline (of_char c)" "\<not> query_set (of_char c)"
    "\<not> special_query_set (of_char c)"
    using Cons.prems
    by (simp_all add: query_plain_not_tab query_plain_not_query_set query_plain_not_special_set)
  ultimately show ?case
    by (simp add: search_encode_def percent_encode_string_def utf8_percent_encode_def)
qed

lemma search_encode_literals:
  "search_encode sp ''auth-token='' = ''auth-token=''"
  "search_encode sp ''&'' = ''&''" "search_encode sp ''='' = ''=''"
  "search_encode sp ''%20'' = ''%20''"
  by (rule search_encode_stable, simp add: query_plain_def component_char_def uri_unreserved_def)+

lemma join_Cons: "join sep (x # xs) = x @ (if xs = [] then [] else sep @ join sep xs)"
  by (cases xs) simp_all

lemma is_special_query: "is_special (u\<lparr>url_query := q\<rparr>) = is_special u"
  by (simp add: is_special_def)

lemma build_url_object_cases:
  assumes "buildUrl rt this command ps = Inr thingsUrl"
  obtains u u0 a p where "build_url_object rt this command ps = Inr u" "thingsUrl = href u"
    "URL_new (parse_absolute rt) command = Inr u0"
    "auth_parts this command = Inr a" "param_parts ps = Inr p"
    "u = (if a @ p = [] then u0
          else u0\<lparr>url_query := Some (search_encode (is_special u0) (join ''&'' (a @ p)))\<rparr>)"
proof -
  from assms obtain u where u: "build_url_object rt this command ps = Inr u" "thingsUrl = href u"
    by (auto simp: buildUrl_def split: sum.splits)
  from u(1) obtain u0 a p where 0: "URL_new (parse_absolute rt) command = Inr u0"
    "auth_parts this command = Inr a" "param_parts ps = Inr p"
    by (auto simp: build_url_object_def split: sum.splits)
  from build_url_object_eq [OF 0] u(1) have "u = (if a @ p = [] then u0
          else u0\<lparr>url_query := Some (search_encode (is_special u0) (join ''&'' (a @ p)))\<rparr>)"
    by simp
  with u 0 that show thesis by blast
qed

lemma search_encode_hd_amp: "search_encode sp (CHR ''&'' # q) = CHR ''&'' # search_encode sp q"
  using search_encode_append [of sp "''&''" q] by (simp add: search_encode_literals)

lemma URL_new_search:
  "URL_new pa (js ''search'') = Inr (baseUrl\<lparr>url_path := Segments [''search'']\<rparr>)"
  by (simp add: eval_url eval_enc)

lemma pct_utf8_percent: "CHR ''%'' \<in> set (pct_utf8 cp)"
  by (simp add: pct_utf8_def utf8_def pct_byte_def)

lemma enc_units_no_percent:
  "enc_units us = Some s \<Longrightarrow> CHR ''%'' \<notin> set s \<Longrightarrow> us = map of_char s"
proof (induction us arbitrary: s rule: enc_units.induct)
  case 1
  then show ?case by simp
next
  case (2 u us)
  show ?case
  proof (cases "uri_unreserved u")
    case True
    with "2.prems" obtain s' where s': "enc_units us = Some s'" and s: "s = char_of u # s'"
      by auto
    have "us = map of_char s'" using "2.IH"(1) True s' "2.prems"(2) s by simp
    then show ?thesis unfolding s using unreserved_facts(2) [OF True] by simp
  next
    case False
    with "2.prems"(1) obtain cp s' where "s = pct_utf8 cp @ s'"
      by (auto split: if_splits list.splits)
    then show ?thesis using "2.prems"(2) pct_utf8_percent [of cp] by simp
  qed
qed

lemma encoded_auth_token_name:
  assumes "encodeURIComponent k = Inr ''auth-token''"
  shows "k = js ''auth-token''"
proof -
  have "enc_units (map unat k) = Some ''auth-token''"
    using assms by (simp add: encodeURIComponent_def split: option.splits)
  then have "map unat k = map of_char ''auth-token''"
    by (rule enc_units_no_percent) simp
  then have "map unat k = map unat (js ''auth-token'')" by (simp only: map_unat_js)
  moreover have "inj (unat :: code_unit \<Rightarrow> nat)" by (rule injI) (simp add: word_unat_eq_iff)
  then have "inj (map (unat :: code_unit \<Rightarrow> nat))" by simp
  ultimately show ?thesis by (simp only: inj_eq)
qed

lemma param_parts_key:
  "param_parts ps = Inr parts \<Longrightarrow> (k, v) \<in> set (defined_entries ps) \<Longrightarrow>
     \<exists>ek. encodeURIComponent k = Inr ek"
proof (induction ps arbitrary: parts rule: param_parts.induct)
  case 1
  then show ?case by (simp add: defined_entries_def)
next
  case (2 key val ps)
  show ?case
  proof (cases "val \<noteq> JUndefined \<and> val \<noteq> JNull")
    case False
    then have "param_parts ps = Inr parts" "(k, v) \<in> set (defined_entries ps)"
      using "2.prems" by (auto simp: defined_entries_def)
    then show ?thesis using "2.IH"(2) False by blast
  next
    case True
    with "2.prems"(1) obtain ek ev rest where
      ek: "encodeURIComponent key = Inr ek" and ev: "encodeURIComponent (String_of val) = Inr ev"
      and rest: "param_parts ps = Inr rest"
      by (auto split: sum.splits)
    from "2.prems"(2) True consider "k = key" | "(k, v) \<in> set (defined_entries ps)"
      by (auto simp: defined_entries_def)
    then show ?thesis
    proof cases
      case 1 then show ?thesis using ek by blast
    next
      case 2 then show ?thesis using "2.IH"(1) True ek ev rest by blast
    qed
  qed
qed

lemma credential_first:
  assumes "truthy (authToken this)" and "buildUrl rt this command ps = Inr thingsUrl"
    and ns: "command \<noteq> js ''show''"
  shows "\<exists>u et rest. build_url_object rt this command ps = Inr u \<and> thingsUrl = href u \<and>
               encodeURIComponent (the (authToken this)) = Inr et \<and>
               url_query u = Some (''auth-token='' @ search_encode (is_special u) et @ rest) \<and>
               (rest = [] \<or> hd rest = CHR ''&'')"
proof (rule build_url_object_cases [OF assms(2)])
  fix u u0 a p
  assume u: "build_url_object rt this command ps = Inr u" "thingsUrl = href u"
    and a: "auth_parts this command = Inr a" and p: "param_parts ps = Inr p"
    and eq: "u = (if a @ p = [] then u0
          else u0\<lparr>url_query := Some (search_encode (is_special u0) (join ''&'' (a @ p)))\<rparr>)"
  from a assms(1) ns obtain et where et: "encodeURIComponent (the (authToken this)) = Inr et"
    and a': "a = [''auth-token='' @ et]"
    by (auto simp: auth_parts_def split: sum.splits)
  define rest where "rest = search_encode (is_special u0)
      (if p = [] then [] else ''&'' @ join ''&'' p)"
  have j: "join ''&'' (a @ p) = ''auth-token='' @ et @ (if p = [] then [] else ''&'' @ join ''&'' p)"
    unfolding a' by (simp add: join_Cons)
  have ne: "a @ p \<noteq> []" unfolding a' by simp
  have se: "search_encode sp (''auth-token='' @ et @ tail) =
      ''auth-token='' @ search_encode sp et @ search_encode sp tail" for sp tail
    by (simp only: search_encode_append search_encode_literals)
  have u': "u = u0\<lparr>url_query := Some (''auth-token='' @ search_encode (is_special u0) et @ rest)\<rparr>"
    unfolding eq if_not_P [OF ne] j se rest_def by (rule refl)
  have sp: "is_special u = is_special u0" unfolding u' by (rule is_special_query)
  have r: "rest = [] \<or> hd rest = CHR ''&''"
    unfolding rest_def by (simp add: search_encode_Nil search_encode_hd_amp)
  have q: "url_query u = Some (''auth-token='' @ search_encode (is_special u) et @ rest)"
    unfolding sp unfolding u' by simp
  show ?thesis
    using u et r q by blast
qed


lemma credential_first_known:
  assumes "truthy (authToken this)" and b: "buildUrl rt this command ps = Inr thingsUrl"
    and c: "command \<in> set (map js [''add'', ''add-project'', ''update'', ''search''])"
  shows "take 1 (search_params thingsUrl) = [(''auth-token'', encoded (the (authToken this)))]"
proof -
  from c consider "command = js ''add''" | "command = js ''add-project''"
    | "command = js ''update''" | "command = js ''search''"
    by (auto simp del: js_inject)
  then have "search_params thingsUrl = auth_entry this command @ map encoded_entry (defined_entries ps)
      \<and> command \<noteq> js ''show''"
  proof cases
    case 1 then show ?thesis using search_params_segment [OF URL_new_add] b by simp
  next
    case 2 then show ?thesis using search_params_segment [OF URL_new_add_project] b by simp
  next
    case 3 then show ?thesis using search_params_segment [OF URL_new_update] b by simp
  next
    case 4 then show ?thesis using search_params_segment [OF URL_new_search] b by simp
  qed
  then show ?thesis using assms(1) by (simp add: auth_entry_def)
qed

lemma show_without_credential:
  assumes b: "buildUrl rt this (js ''show'') ps = Inr thingsUrl"
  shows "buildUrl rt (this\<lparr>authToken := None\<rparr>) (js ''show'') ps = Inr thingsUrl"
    and "search_params thingsUrl = map encoded_entry (defined_entries ps)"
    and "js ''auth-token'' \<notin> fst ` set (defined_entries ps) \<Longrightarrow>
           ''auth-token'' \<notin> fst ` set (search_params thingsUrl)"
proof -
  have ap: "auth_parts this (js ''show'') = auth_parts (this\<lparr>authToken := None\<rparr>) (js ''show'')"
    by (simp add: auth_parts_def truthy_def)
  have "build_url_object rt (this\<lparr>authToken := None\<rparr>) (js ''show'') ps =
      build_url_object rt this (js ''show'') ps"
    unfolding build_url_object_def ap by (rule refl)
  then show "buildUrl rt (this\<lparr>authToken := None\<rparr>) (js ''show'') ps = Inr thingsUrl"
    using b by (simp add: buildUrl_def)
  show sp: "search_params thingsUrl = map encoded_entry (defined_entries ps)"
    using search_params_segment [OF URL_new_show b] by (simp add: auth_entry_def)
  show "''auth-token'' \<notin> fst ` set (search_params thingsUrl)"
    if nk: "js ''auth-token'' \<notin> fst ` set (defined_entries ps)"
  proof
    assume "''auth-token'' \<in> fst ` set (search_params thingsUrl)"
    then obtain k v where kv: "(k, v) \<in> set (defined_entries ps)" and e: "encoded k = ''auth-token''"
      unfolding sp by (auto simp: encoded_entry_def)
    from b obtain p where p: "param_parts ps = Inr p"
      by (auto simp: buildUrl_def build_url_object_def split: sum.splits)
    have "\<exists>ek. encodeURIComponent k = Inr ek" using p kv by (rule param_parts_key)
    then have "encodeURIComponent k = Inr ''auth-token''" using e by (auto simp: encoded_def)
    then have "k = js ''auth-token''" by (rule encoded_auth_token_name)
    then show False using kv nk by force
  qed
qed


section \<open>Spaces and plus signs\<close>


lemma space_facts:
  "\<not> uri_unreserved 32" "\<not> low_surrogate 32" "\<not> high_surrogate 32" "pct_utf8 32 = ''%20''"
  by (simp_all add: uri_unreserved_def low_surrogate_def high_surrogate_def pct_utf8_def utf8_def
      pct_byte_def hex_digit_def)

lemma enc_units_space:
  "enc_units (xs @ 32 # ys) = Some e \<Longrightarrow>
     \<exists>ex ey. enc_units xs = Some ex \<and> enc_units ys = Some ey \<and> e = ex @ ''%20'' @ ey"
proof (induction xs arbitrary: e rule: enc_units.induct)
  case 1
  then show ?case by (auto simp: space_facts)
next
  case (2 u us)
  show ?case
  proof (cases "uri_unreserved u")
    case True
    with "2.prems" obtain e' where e': "enc_units (us @ 32 # ys) = Some e'"
      and e: "e = char_of u # e'"
      by auto
    from "2.IH"(1) [OF True e'] obtain ex ey where
      "enc_units us = Some ex" "enc_units ys = Some ey" "e' = ex @ ''%20'' @ ey" by blast
    then show ?thesis using True e by simp
  next
    case nu: False
    show ?thesis
    proof (cases "low_surrogate u")
      case True
      then show ?thesis using "2.prems" nu by simp
    next
      case nl: False
      show ?thesis
      proof (cases "high_surrogate u")
        case True
        show ?thesis
        proof (cases us)
          case Nil
          then show ?thesis using "2.prems" nu nl True by (simp add: space_facts)
        next
          case (Cons l rest)
          with "2.prems" nu nl True have l: "low_surrogate l"
            by (auto split: if_splits)
          with "2.prems" nu nl True Cons obtain e' where
            e': "enc_units (rest @ 32 # ys) = Some e'"
            and e: "e = pct_utf8 (pair_code_point u l) @ e'"
            by auto
          from "2.IH"(2) [OF nu nl True Cons l e'] obtain ex ey where
            "enc_units rest = Some ex" "enc_units ys = Some ey" "e' = ex @ ''%20'' @ ey" by blast
          then show ?thesis using nu nl True Cons l e by simp
        qed
      next
        case False
        with "2.prems" nu nl obtain e' where e': "enc_units (us @ 32 # ys) = Some e'"
          and e: "e = pct_utf8 u @ e'"
          by auto
        from "2.IH"(3) [OF nu nl False e'] obtain ex ey where
          "enc_units us = Some ex" "enc_units ys = Some ey" "e' = ex @ ''%20'' @ ey" by blast
        then show ?thesis using nu nl False e by simp
      qed
    qed
  qed
qed

lemma encodeURIComponent_space:
  assumes "encodeURIComponent (xs @ [0x20] @ ys) = Inr e"
  shows "\<exists>ex ey. encodeURIComponent xs = Inr ex \<and> encodeURIComponent ys = Inr ey \<and>
           e = ex @ ''%20'' @ ey"
proof -
  have "enc_units (map unat xs @ 32 # map unat ys) = Some e"
    using assms by (simp add: encodeURIComponent_def split: option.splits)
  from enc_units_space [OF this] show ?thesis
    by (auto simp: encodeURIComponent_def)
qed

lemma param_parts_member:
  "param_parts ps = Inr parts \<Longrightarrow> (k, JStr v) \<in> set ps \<Longrightarrow>
     \<exists>ek ev p1 p2. encodeURIComponent k = Inr ek \<and> encodeURIComponent v = Inr ev \<and>
        parts = p1 @ [ek @ ''='' @ ev] @ p2"
proof (induction ps arbitrary: parts rule: param_parts.induct)
  case 1
  then show ?case by simp
next
  case (2 key val ps)
  show ?case
  proof (cases "val \<noteq> JUndefined \<and> val \<noteq> JNull")
    case False
    then have "param_parts ps = Inr parts" "(k, JStr v) \<in> set ps"
      using "2.prems" by auto
    then show ?thesis using "2.IH"(2) False by blast
  next
    case True
    with "2.prems"(1) obtain ek ev rest where
      ek: "encodeURIComponent key = Inr ek" and ev: "encodeURIComponent (String_of val) = Inr ev"
      and rest: "param_parts ps = Inr rest" and parts: "parts = (ek @ ''='' @ ev) # rest"
      by (auto split: sum.splits)
    from "2.prems"(2) consider "k = key \<and> val = JStr v" | "(k, JStr v) \<in> set ps" by auto
    then show ?thesis
    proof cases
      case 1
      then have "parts = [] @ [ek @ ''='' @ ev] @ rest" "encodeURIComponent k = Inr ek"
        "encodeURIComponent v = Inr ev"
        using parts ek ev by simp_all
      then show ?thesis by blast
    next
      case 2
      from "2.IH"(1) [OF True ek ev rest 2] obtain ek' ev' p1 p2 where
        "encodeURIComponent k = Inr ek'" "encodeURIComponent v = Inr ev'"
        "rest = p1 @ [ek' @ ''='' @ ev'] @ p2" by blast
      then have "parts = ((ek @ ''='' @ ev) # p1) @ [ek' @ ''='' @ ev'] @ p2"
        "encodeURIComponent k = Inr ek'" "encodeURIComponent v = Inr ev'"
        using parts by simp_all
      then show ?thesis by blast
    qed
  qed
qed

lemma join_middle: "\<exists>pre post. join sep (l1 @ [x] @ l2) = pre @ x @ post"
proof (induction l1)
  case Nil
  have "join sep ([] @ [x] @ l2) = [] @ x @ (if l2 = [] then [] else sep @ join sep l2)"
    by (simp add: join_Cons)
  then show ?case by blast
next
  case (Cons a l1)
  then obtain pre post where "join sep (l1 @ [x] @ l2) = pre @ x @ post" by blast
  then have "join sep ((a # l1) @ [x] @ l2) = (a @ sep @ pre) @ x @ post"
    by (simp add: join_Cons)
  then show ?case by blast
qed

lemma pct_utf8_no_plus: "CHR ''+'' \<notin> set (pct_utf8 cp)"
  using pct_utf8_component [of "CHR ''+''" cp]
  by (auto simp: component_char_def uri_unreserved_def)

lemma search_encode_no_plus:
  "\<forall>c\<in>set q. query_plain c \<Longrightarrow> CHR ''+'' \<notin> set (search_encode sp q)"
proof (induction q)
  case Nil
  then show ?case by (simp add: search_encode_Nil)
next
  case (Cons c q)
  then have IH: "CHR ''+'' \<notin> set (search_encode sp q)" by simp
  have c: "query_plain c" using Cons.prems by simp
  then have cp: "c \<noteq> CHR ''+''"
    by (auto simp: query_plain_def component_char_def uri_unreserved_def)
  have "search_encode sp [c] = [c] \<or> search_encode sp [c] = pct_utf8 (of_char c)"
    using query_plain_not_tab [OF c]
    by (simp add: search_encode_def percent_encode_string_def utf8_percent_encode_def)
  then have "CHR ''+'' \<notin> set (search_encode sp [c])"
    using cp pct_utf8_no_plus by auto
  then show ?case
    using IH search_encode_append [of sp "[c]" q] by simp
qed



section \<open>Claims\<close>

subsection \<open>C8: the empty command\<close>

text \<open>
  C8 says that \<open>buildUrl\<close> raises for the empty command string, whatever the parameters.
  It does not: \<open>new URL('', 'things:///')\<close> is the base URL itself, and \<open>buildUrl\<close> has no
  check of its own. With no token and no parameters the result is \<open>things:///\<close>.
\<close>

theorem buildUrl_empty_command_counterexample:
  "buildUrl mac \<lparr>authToken = None\<rparr> [] [] = Inr ''things:///''"
  by (simp add: eval_client eval_url eval_enc)

text \<open>
  C8 as amended: for the empty command \<open>buildUrl\<close> raises exactly when
  \<open>encodeURIComponent\<close> throws on the token, a key or a value; otherwise it returns
  \<open>things:///\<close> followed by the query string of the credential and the parameters.
\<close>

theorem buildUrl_empty_command:
  "buildUrl rt this [] ps =
     (case auth_parts this [] of
        Inl e \<Rightarrow> Inl (Error (''Failed to build Things URL: '' @ message e))
      | Inr auth \<Rightarrow>
          (case param_parts ps of
             Inl e \<Rightarrow> Inl (Error (''Failed to build Things URL: '' @ message e))
           | Inr parts \<Rightarrow> Inr (''things:///'' @ query_string (auth @ parts))))"
proof (cases "auth_parts this []")
  case (Inl e)
  then show ?thesis by (simp add: buildUrl_def build_url_object_def URL_new_empty)
next
  case auth: (Inr a)
  show ?thesis
  proof (cases "param_parts ps")
    case (Inl e)
    then show ?thesis using auth by (simp add: buildUrl_def build_url_object_def URL_new_empty)
  next
    case (Inr p)
    have "search_encode False (join ''&'' (a @ p)) = join ''&'' (a @ p)"
      using joined_parts_plain [OF auth Inr] by (rule search_encode_plain)
    then show ?thesis
      using auth Inr
      by (simp add: buildUrl_def build_url_object_def URL_new_empty set_search_question
          is_special_baseUrl href_baseUrl_query href_baseUrl query_string_def)
  qed
qed

theorem buildUrl_empty_command_witness:
  "buildUrl mac mac_client [] [(js ''title'', JStr (js ''Buy milk''))] =
     Inr ''things:///?auth-token=secret&title=Buy%20milk''"
  using buildUrl_empty_command [of mac mac_client "[(js ''title'', JStr (js ''Buy milk''))]"]
  by (simp add: eval_client eval_enc)

subsection \<open>C3: clearing the notes against leaving them alone\<close>

text \<open>
  C3: for an update with a valid id, \<open>updateTodo\<close> with \<open>notes\<close> set to the empty string
  builds a parameter object with a \<open>notes\<close> key of empty value and a URL with the parameter
  \<open>notes=\<close>; with \<open>notes\<close> absent, neither the object nor the URL has a \<open>notes\<close> key.
  \<open>thingsUrl\<close> is the URL \<open>updateTodo\<close> hands to \<open>open\<close>.
\<close>

theorem updateTodo_notes_clear_or_omit:
  assumes "truthy (u_id d)" and "snd (updateTodo rt this d w) = w @ [thingsUrl]"
  shows "(u_notes d = Some [] \<longrightarrow>
            (js ''notes'', JStr []) \<in> set (updateTodo_params d) \<and>
            (''notes'', []) \<in> set (search_params thingsUrl)) \<and>
         (u_notes d = None \<longrightarrow>
            js ''notes'' \<notin> fst ` set (updateTodo_params d) \<and>
            ''notes'' \<notin> fst ` set (search_params thingsUrl))"
proof -
  have b: "buildUrl rt this (js ''update'') (updateTodo_params d) = Inr thingsUrl"
    using assms by (simp add: updateTodo_def executeCommand_opened)
  have sp: "search_params thingsUrl =
      auth_entry this (js ''update'') @ map encoded_entry (defined_entries (updateTodo_params d))"
    by (rule search_params_segment [OF URL_new_update b]) simp
  show ?thesis
  proof (intro conjI impI)
    assume n: "u_notes d = Some []"
    show m: "(js ''notes'', JStr []) \<in> set (updateTodo_params d)"
      by (simp add: updateTodo_params_def if_defined_def n)
    then have "(js ''notes'', JStr []) \<in> set (defined_entries (updateTodo_params d))"
      by (simp add: defined_entries_def)
    then have "encoded_entry (js ''notes'', JStr []) \<in>
        set (map encoded_entry (defined_entries (updateTodo_params d)))"
      unfolding set_map by (rule imageI)
    then show "(''notes'', []) \<in> set (search_params thingsUrl)"
      unfolding sp by (simp add: encoded_entry_def encoded_names)
  next
    assume n: "u_notes d = None"
    have "js ''notes'' \<notin> set (map fst (updateTodo_params d))"
      by (simp add: updateTodo_params_def keys_if_defined n)
    then show "js ''notes'' \<notin> fst ` set (updateTodo_params d)"
      unfolding set_map .
    have names: "map fst (search_params thingsUrl) =
        map fst (auth_entry this (js ''update'')) @
        map (fst \<circ> encoded_entry) (defined_entries (updateTodo_params d))"
      unfolding sp by simp
    have 1: "''notes'' \<notin> set (map fst (auth_entry this (js ''update'')))"
      using auth_entry_names [of this "js ''update''"] by auto
    have 2: "''notes'' \<notin> set (map (fst \<circ> encoded_entry) (defined_entries (updateTodo_params d)))"
      using updateTodo_names [of d] n by auto
    have "''notes'' \<notin> set (map fst (search_params thingsUrl))"
      unfolding names set_append using 1 2 by blast
    then show "''notes'' \<notin> fst ` set (search_params thingsUrl)"
      unfolding set_map .
  qed
qed

theorem updateTodo_notes_clear_or_omit_witness:
  "truthy (u_id update_clear) \<and>
   snd (updateTodo mac mac_client update_clear []) =
     [] @ [''things:///update?auth-token=secret&id=abc123&notes=''] \<and>
   (js ''notes'', JStr []) \<in> set (updateTodo_params update_clear) \<and>
   (''notes'', []) \<in> set (search_params ''things:///update?auth-token=secret&id=abc123&notes='') \<and>
   truthy (u_id update_keep) \<and>
   snd (updateTodo mac mac_client update_keep []) =
     [] @ [''things:///update?auth-token=secret&id=abc123&title=Buy%20milk''] \<and>
   js ''notes'' \<notin> fst ` set (updateTodo_params update_keep) \<and>
   ''notes'' \<notin> fst ` set (search_params ''things:///update?auth-token=secret&id=abc123&title=Buy%20milk'')"
proof -
  have t1: "truthy (u_id update_clear)" and t2: "truthy (u_id update_keep)"
    by (simp_all add: truthy_def update_clear_def update_keep_def eval_enc)
  have w1: "snd (updateTodo mac mac_client update_clear []) =
      [] @ [''things:///update?auth-token=secret&id=abc123&notes='']"
    by (simp add: updateTodo_def updateTodo_params_def if_defined_def update_clear_def
        eval_client eval_url eval_enc)
  have w2: "snd (updateTodo mac mac_client update_keep []) =
      [] @ [''things:///update?auth-token=secret&id=abc123&title=Buy%20milk'']"
    by (simp add: updateTodo_def updateTodo_params_def if_defined_def update_keep_def
        eval_client eval_url eval_enc)
  have n1: "u_notes update_clear = Some []" and n2: "u_notes update_keep = None"
    by (simp_all add: update_clear_def update_keep_def)
  show ?thesis
    using updateTodo_notes_clear_or_omit [OF t1 w1] updateTodo_notes_clear_or_omit [OF t2 w2]
      t1 t2 w1 w2 n1 n2
    by blast
qed

subsection \<open>C10: \<open>buildUrl\<close> is a function of token, command and parameters\<close>



subsection \<open>C9: creation drops empty optional fields\<close>

text \<open>
  C9: \<open>addTodo\<close> and \<open>addProject\<close> treat an optional field holding the empty string as
  an absent one (the whole call behaves the same); a creation with a title only builds the
  parameter object with the single key \<open>title\<close>, and its URL carries the credential, when
  configured, and the title; \<open>updateTodo\<close>, in contrast, tells an empty \<open>notes\<close> from an
  absent one.
\<close>

theorem creation_omits_empty_fields:
  "addTodo rt this (d\<lparr>t_notes := Some []\<rparr>) w = addTodo rt this (d\<lparr>t_notes := None\<rparr>) w \<and>
   addTodo rt this (d\<lparr>t_when := Some []\<rparr>) w = addTodo rt this (d\<lparr>t_when := None\<rparr>) w \<and>
   addTodo rt this (d\<lparr>t_deadline := Some []\<rparr>) w = addTodo rt this (d\<lparr>t_deadline := None\<rparr>) w \<and>
   addTodo rt this (d\<lparr>t_tags := Some []\<rparr>) w = addTodo rt this (d\<lparr>t_tags := None\<rparr>) w \<and>
   addTodo rt this (d\<lparr>t_checklist := Some []\<rparr>) w =
     addTodo rt this (d\<lparr>t_checklist := None\<rparr>) w \<and>
   addTodo rt this (d\<lparr>t_list := Some []\<rparr>) w = addTodo rt this (d\<lparr>t_list := None\<rparr>) w \<and>
   addProject rt this (p\<lparr>p_notes := Some []\<rparr>) w = addProject rt this (p\<lparr>p_notes := None\<rparr>) w \<and>
   addProject rt this (p\<lparr>p_when := Some []\<rparr>) w = addProject rt this (p\<lparr>p_when := None\<rparr>) w \<and>
   addProject rt this (p\<lparr>p_deadline := Some []\<rparr>) w =
     addProject rt this (p\<lparr>p_deadline := None\<rparr>) w \<and>
   addProject rt this (p\<lparr>p_tags := Some []\<rparr>) w = addProject rt this (p\<lparr>p_tags := None\<rparr>) w \<and>
   addProject rt this (p\<lparr>p_area := Some []\<rparr>) w = addProject rt this (p\<lparr>p_area := None\<rparr>) w \<and>
   addTodo_params (todo_titled t) = [(js ''title'', JStr t)] \<and>
   addProject_params (project_titled t) = [(js ''title'', JStr t)] \<and>
   (buildUrl rt this (js ''add'') (addTodo_params (todo_titled t)) = Inr todoUrl \<longrightarrow>
      search_params todoUrl = auth_entry this (js ''add'') @ [(''title'', encoded t)]) \<and>
   (buildUrl rt this (js ''add-project'') (addProject_params (project_titled t)) = Inr projectUrl \<longrightarrow>
      search_params projectUrl = auth_entry this (js ''add-project'') @ [(''title'', encoded t)]) \<and>
   updateTodo_params (u\<lparr>u_notes := Some []\<rparr>) \<noteq> updateTodo_params (u\<lparr>u_notes := None\<rparr>)"
proof -
  have todo: "addTodo_params (todo_titled t) = [(js ''title'', JStr t)]"
    by (simp add: addTodo_params_def todo_titled_def if_truthy_def truthy_def)
  have project: "addProject_params (project_titled t) = [(js ''title'', JStr t)]"
    by (simp add: addProject_params_def project_titled_def if_truthy_def truthy_def)
  have e: "map encoded_entry (defined_entries [(js ''title'', JStr t)]) = [(''title'', encoded t)]"
    by (simp add: defined_entries_def encoded_entry_def encoded_names)
  have turl: "search_params todoUrl = auth_entry this (js ''add'') @ [(''title'', encoded t)]"
    if "buildUrl rt this (js ''add'') (addTodo_params (todo_titled t)) = Inr todoUrl"
    using search_params_segment [OF URL_new_add that] by (simp add: todo e)
  have purl: "search_params projectUrl =
      auth_entry this (js ''add-project'') @ [(''title'', encoded t)]"
    if "buildUrl rt this (js ''add-project'') (addProject_params (project_titled t)) = Inr projectUrl"
    using search_params_segment [OF URL_new_add_project that] by (simp add: project e)
  have "length (updateTodo_params (u\<lparr>u_notes := Some []\<rparr>)) =
      Suc (length (updateTodo_params (u\<lparr>u_notes := None\<rparr>)))"
    by (simp add: updateTodo_params_def if_defined_def)
  then have upd: "updateTodo_params (u\<lparr>u_notes := Some []\<rparr>) \<noteq> updateTodo_params (u\<lparr>u_notes := None\<rparr>)"
    by auto
  show ?thesis
    using todo project turl purl upd
    by (simp add: addTodo_def addTodo_params_def addProject_def addProject_params_def
        if_truthy_empty)
qed

theorem creation_omits_empty_fields_witness:
  "buildUrl mac mac_client (js ''add'') (addTodo_params (todo_titled (js ''Buy milk''))) =
     Inr ''things:///add?auth-token=secret&title=Buy%20milk'' \<and>
   search_params ''things:///add?auth-token=secret&title=Buy%20milk'' =
     [(''auth-token'', ''secret''), (''title'', ''Buy%20milk'')] \<and>
   buildUrl mac mac_client (js ''add-project'')
       (addProject_params (project_titled (js ''Buy milk''))) =
     Inr ''things:///add-project?auth-token=secret&title=Buy%20milk'' \<and>
   search_params ''things:///add-project?auth-token=secret&title=Buy%20milk'' =
     [(''auth-token'', ''secret''), (''title'', ''Buy%20milk'')]"
proof -
  have a: "auth_entry mac_client (js ''add'') = [(''auth-token'', ''secret'')]"
    "auth_entry mac_client (js ''add-project'') = [(''auth-token'', ''secret'')]"
    "encoded (js ''Buy milk'') = ''Buy%20milk''"
    by (simp_all add: auth_entry_def encoded_def mac_client_def truthy_def eval_enc)
  have b1: "buildUrl mac mac_client (js ''add'') (addTodo_params (todo_titled (js ''Buy milk''))) =
      Inr ''things:///add?auth-token=secret&title=Buy%20milk''"
    by (simp add: addTodo_params_def todo_titled_def if_truthy_def eval_client eval_url eval_enc)
  have b2: "buildUrl mac mac_client (js ''add-project'')
      (addProject_params (project_titled (js ''Buy milk''))) =
      Inr ''things:///add-project?auth-token=secret&title=Buy%20milk''"
    by (simp add: addProject_params_def project_titled_def if_truthy_def eval_client eval_url
        eval_enc)
  show ?thesis
    using creation_omits_empty_fields [where rt = mac and this = mac_client
        and t = "js ''Buy milk''"
        and todoUrl = "''things:///add?auth-token=secret&title=Buy%20milk''"
        and projectUrl = "''things:///add-project?auth-token=secret&title=Buy%20milk''"]
      b1 b2
    by (simp add: a)
qed

subsection \<open>C6: a project with its to-dos\<close>

text \<open>
  C6: \<open>addProject\<close> serialises the \<open>todos\<close> array into one parameter, the titles joined
  by newlines. For every project with a title and a \<open>todos\<close> array, the URL handed to
  \<open>open\<close> is an \<open>add-project\<close> command whose \<open>todos\<close> parameter percent-decodes to the
  UTF-8 bytes of the joined string and whose \<open>title\<close> parameter percent-decodes to those of the
  title. The scenario of the specification (title \<open>Website Redesign\<close>, to-dos
  \<open>Create wireframes\<close> and \<open>Design mockups\<close>) is the instance shown after the theorem.
\<close>

theorem addProject_title_and_todos:
  assumes "truthy (p_title d)" and "p_todos d = Some ts"
    and "snd (addProject rt this d w) = w @ [thingsUrl]"
  shows "map_of (addProject_params d) (js ''todos'') = Some (JStr (join [0x0A] ts)) \<and>
         map_of (addProject_params d) (js ''title'') = Some (JStr (the (p_title d))) \<and>
         take 22 thingsUrl = ''things:///add-project?'' \<and>
         (\<exists>v. map_of (search_params thingsUrl) ''todos'' = Some v \<and>
              percent_decode v = utf8_bytes (join [0x0A] ts)) \<and>
         (\<exists>v. map_of (search_params thingsUrl) ''title'' = Some v \<and>
              percent_decode v = utf8_bytes (the (p_title d)))"
proof -
  let ?ps = "addProject_params d"
  let ?todos = "join [0x0A] ts"
  let ?title = "the (p_title d)"
  have b: "buildUrl rt this (js ''add-project'') ?ps = Inr thingsUrl"
    using assms by (simp add: addProject_def executeCommand_opened)
  from buildUrl_segment [OF URL_new_add_project b] obtain a p where
    a: "auth_parts this (js ''add-project'') = Inr a" and p: "param_parts ?ps = Inr p"
    and url: "thingsUrl = ''things:///add-project'' @ query_string (a @ p)" by auto
  have sp: "search_params thingsUrl =
      auth_entry this (js ''add-project'') @ map encoded_entry ?ps"
    using search_params_segment [OF URL_new_add_project b] by (simp add: defined_entries_addProject)
  have m1: "map_of ?ps (js ''todos'') = Some (JStr ?todos)"
    by (simp add: addProject_params_def assms(2) map_add_def map_of_if_truthy_other)
  have m2: "map_of ?ps (js ''title'') = Some (JStr ?title)"
    by (simp add: addProject_params_def assms(2) map_add_def map_of_if_truthy_other)
  have "length p = length ?ps"
    using param_parts_entries [OF p] by (simp add: defined_entries_addProject)
  then have "p \<noteq> []" by (auto simp: addProject_params_def)
  then have pre: "take 22 thingsUrl = ''things:///add-project?''"
    unfolding url by (simp add: query_string_def)
  have in1: "(js ''todos'', JStr ?todos) \<in> set ?ps" using m1 by (rule map_of_SomeD)
  have in2: "(js ''title'', JStr ?title) \<in> set ?ps" using m2 by (rule map_of_SomeD)
  from param_parts_value [OF p in1] obtain e1 where e1: "encodeURIComponent ?todos = Inr e1" ..
  from param_parts_value [OF p in2] obtain e2 where e2: "encodeURIComponent ?title = Inr e2" ..
  have s1: "map_of (search_params thingsUrl) ''todos'' = Some (encoded ?todos)"
    unfolding sp
    by (simp add: map_of_auth_entry addProject_params_def assms(2) encoded_names
        map_of_encoded_if_truthy map_add_def)
       (simp add: encoded_entry_def encoded_names)
  have s2: "map_of (search_params thingsUrl) ''title'' = Some (encoded ?title)"
    unfolding sp
    by (simp add: map_of_auth_entry addProject_params_def assms(2) encoded_names
        map_of_encoded_if_truthy map_add_def)
       (simp add: encoded_entry_def encoded_names)
  have d1: "percent_decode (encoded ?todos) = utf8_bytes ?todos"
    using encodeURIComponent_decode [OF e1] by (simp add: encoded_eq [OF e1])
  have d2: "percent_decode (encoded ?title) = utf8_bytes ?title"
    using encodeURIComponent_decode [OF e2] by (simp add: encoded_eq [OF e2])
  show ?thesis using m1 m2 pre s1 s2 d1 d2 by blast
qed

theorem addProject_title_and_todos_witness:
  "truthy (p_title website_redesign) \<and>
   p_todos website_redesign = Some [js ''Create wireframes'', js ''Design mockups''] \<and>
   snd (addProject mac mac_client website_redesign []) =
     [] @ [''things:///add-project?auth-token=secret&title=Website%20Redesign&todos=Create%20wireframes%0ADesign%20mockups''] \<and>
   map_of (search_params ''things:///add-project?auth-token=secret&title=Website%20Redesign&todos=Create%20wireframes%0ADesign%20mockups'') ''todos'' =
     Some ''Create%20wireframes%0ADesign%20mockups'' \<and>
   percent_decode ''Create%20wireframes%0ADesign%20mockups'' =
     utf8_bytes (js ''Create wireframes'' @ [0x0A] @ js ''Design mockups'') \<and>
   map_of (search_params ''things:///add-project?auth-token=secret&title=Website%20Redesign&todos=Create%20wireframes%0ADesign%20mockups'') ''title'' =
     Some ''Website%20Redesign'' \<and>
   percent_decode ''Website%20Redesign'' = utf8_bytes (js ''Website Redesign'')"
proof -
  let ?url = "''things:///add-project?auth-token=secret&title=Website%20Redesign&todos=Create%20wireframes%0ADesign%20mockups''"
  have t: "truthy (p_title website_redesign)"
    by (simp add: website_redesign_def truthy_def eval_enc)
  have ts: "p_todos website_redesign = Some [js ''Create wireframes'', js ''Design mockups'']"
    by (simp add: website_redesign_def)
  have w: "snd (addProject mac mac_client website_redesign []) = [] @ [?url]"
    by (simp add: addProject_def addProject_params_def if_truthy_def website_redesign_def
        eval_client eval_url eval_enc)
  have sp: "search_params ?url = [(''auth-token'', ''secret''), (''title'', ''Website%20Redesign''),
      (''todos'', ''Create%20wireframes%0ADesign%20mockups'')]"
    by (simp add: search_params_def name_value_def)
  have j: "join [0x0A] [js ''Create wireframes'', js ''Design mockups''] =
      js ''Create wireframes'' @ [0x0A] @ js ''Design mockups''"
    by simp
  have ti: "the (p_title website_redesign) = js ''Website Redesign''"
    by (simp add: website_redesign_def)
  show ?thesis
    using addProject_title_and_todos [OF t ts w] t ts w
    unfolding sp j ti by simp
qed

subsection \<open>C2: where the credential goes\<close>

text \<open>
  C2: with a token configured, every URL \<open>buildUrl\<close> returns for a command other than
  \<open>show\<close> has the \<open>auth-token\<close> parameter first in its query: the query of the URL object
  starts with \<open>auth-token=\<close> and the encoded token, followed by nothing or by \<open>&\<close>; for the
  commands of the client, read back from the URL string, the first parameter is the
  credential. For \<open>show\<close> the token is not used: the URL is the one built without a token,
  its parameters are exactly the entries of the mapping, and none of them is named
  \<open>auth-token\<close> unless the mapping itself has that key.
\<close>

theorem buildUrl_credential:
  assumes "truthy (authToken this)" and "buildUrl rt this command ps = Inr thingsUrl"
  shows "(command \<noteq> js ''show'' \<longrightarrow>
            (\<exists>u et rest. build_url_object rt this command ps = Inr u \<and> thingsUrl = href u \<and>
               encodeURIComponent (the (authToken this)) = Inr et \<and>
               url_query u = Some (''auth-token='' @ search_encode (is_special u) et @ rest) \<and>
               (rest = [] \<or> hd rest = CHR ''&''))) \<and>
         (command \<in> set (map js [''add'', ''add-project'', ''update'', ''search'']) \<longrightarrow>
            take 1 (search_params thingsUrl) = [(''auth-token'', encoded (the (authToken this)))]) \<and>
         (command = js ''show'' \<longrightarrow>
            buildUrl rt (this\<lparr>authToken := None\<rparr>) command ps = Inr thingsUrl \<and>
            search_params thingsUrl = map encoded_entry (defined_entries ps) \<and>
            (js ''auth-token'' \<notin> fst ` set (defined_entries ps) \<longrightarrow>
               ''auth-token'' \<notin> fst ` set (search_params thingsUrl)))"
proof -
  have 1: "command \<noteq> js ''show'' \<longrightarrow>
            (\<exists>u et rest. build_url_object rt this command ps = Inr u \<and> thingsUrl = href u \<and>
               encodeURIComponent (the (authToken this)) = Inr et \<and>
               url_query u = Some (''auth-token='' @ search_encode (is_special u) et @ rest) \<and>
               (rest = [] \<or> hd rest = CHR ''&''))"
    using credential_first [OF assms] by (rule_tac impI)
  have 2: "command \<in> set (map js [''add'', ''add-project'', ''update'', ''search'']) \<longrightarrow>
            take 1 (search_params thingsUrl) = [(''auth-token'', encoded (the (authToken this)))]"
    using credential_first_known [OF assms] by (rule_tac impI)
  have 3: "command = js ''show'' \<longrightarrow>
            buildUrl rt (this\<lparr>authToken := None\<rparr>) command ps = Inr thingsUrl \<and>
            search_params thingsUrl = map encoded_entry (defined_entries ps) \<and>
            (js ''auth-token'' \<notin> fst ` set (defined_entries ps) \<longrightarrow>
               ''auth-token'' \<notin> fst ` set (search_params thingsUrl))"
  proof
    assume s: "command = js ''show''"
    with assms(2) have b: "buildUrl rt this (js ''show'') ps = Inr thingsUrl" by simp
    show "buildUrl rt (this\<lparr>authToken := None\<rparr>) command ps = Inr thingsUrl \<and>
            search_params thingsUrl = map encoded_entry (defined_entries ps) \<and>
            (js ''auth-token'' \<notin> fst ` set (defined_entries ps) \<longrightarrow>
               ''auth-token'' \<notin> fst ` set (search_params thingsUrl))"
      unfolding s using show_without_credential [OF b] by (intro conjI impI)
  qed
  from 1 2 3 show ?thesis by (intro conjI)
qed

theorem buildUrl_credential_witness:
  "truthy (authToken mac_client) \<and>
   buildUrl mac mac_client (js ''add'') [(js ''title'', JStr (js ''Buy milk''))] =
     Inr ''things:///add?auth-token=secret&title=Buy%20milk'' \<and>
   take 1 (search_params ''things:///add?auth-token=secret&title=Buy%20milk'') =
     [(''auth-token'', ''secret'')] \<and>
   buildUrl mac mac_client (js ''show'') [(js ''id'', JStr (js ''today''))] =
     Inr ''things:///show?id=today'' \<and>
   search_params ''things:///show?id=today'' = [(''id'', ''today'')] \<and>
   ''auth-token'' \<notin> fst ` set (search_params ''things:///show?id=today'')"
proof -
  have t: "truthy (authToken mac_client)"
    by (simp add: mac_client_def truthy_def eval_enc)
  have b1: "buildUrl mac mac_client (js ''add'') [(js ''title'', JStr (js ''Buy milk''))] =
      Inr ''things:///add?auth-token=secret&title=Buy%20milk''"
    by (simp add: eval_client eval_url eval_enc)
  have b2: "buildUrl mac mac_client (js ''show'') [(js ''id'', JStr (js ''today''))] =
      Inr ''things:///show?id=today''"
    by (simp add: eval_client eval_url eval_enc)
  have e: "encoded (the (authToken mac_client)) = ''secret''"
    "map encoded_entry (defined_entries [(js ''id'', JStr (js ''today''))]) = [(''id'', ''today'')]"
    "js ''auth-token'' \<notin> fst ` set (defined_entries [(js ''id'', JStr (js ''today''))])"
    by (simp_all add: encoded_def encoded_entry_def defined_entries_def mac_client_def eval_enc)
  show ?thesis
    using buildUrl_credential [OF t b1] buildUrl_credential [OF t b2] t b1 b2
    by (simp add: e)
qed

end
